theory Spec2Isabelle
  imports Main "HOL-Library.Stream"
begin

section \<open>Data model (types.ts, constants.ts)\<close>

datatype Direction = UP | DOWN | LEFT | RIGHT

datatype GameStatus = IDLE | PLAYING | PAUSED | GAME_OVER

record Point =
  x :: int
  y :: int

type_synonym Snake = "Point list"

text \<open>
  A JavaScript number as far as the high score needs it: \<open>parseInt\<close> yields either
  \<open>NaN\<close> or an integer. Scores, speeds and grid coordinates are always integers
  (they come from integer constants by adding and subtracting integers), so they
  are plain \<open>int\<close>.
\<close>

datatype number = NaN | Num int

definition GRID_SIZE :: int where "GRID_SIZE = 20"
definition INITIAL_SPEED :: int where "INITIAL_SPEED = 150"
definition MIN_SPEED :: int where "MIN_SPEED = 60"
definition SPEED_DECREMENT :: int where "SPEED_DECREMENT = 2"

definition INITIAL_SNAKE :: Snake where
  "INITIAL_SNAKE = [\<lparr>x = 10, y = 10\<rparr>, \<lparr>x = 10, y = 11\<rparr>, \<lparr>x = 10, y = 12\<rparr>]"

definition INITIAL_DIRECTION :: Direction where
  "INITIAL_DIRECTION = UP"

definition KEY_MAP :: "string \<Rightarrow> Direction option" where
  "KEY_MAP = map_of
     [(''ArrowUp'', UP), (''w'', UP), (''W'', UP),
      (''ArrowDown'', DOWN), (''s'', DOWN), (''S'', DOWN),
      (''ArrowLeft'', LEFT), (''a'', LEFT), (''A'', LEFT),
      (''ArrowRight'', RIGHT), (''d'', RIGHT), (''D'', RIGHT)]"

text \<open>
  The state of the \<open>App\<close> component: the seven \<open>useState\<close> cells and the three
  \<open>useRef\<close> cells the game logic reads. \<open>snakeRef\<close> and \<open>directionRef\<close> are
  copied from \<open>snake\<close> and \<open>direction\<close> by effects after every render
  (\<open>commit\<close> below); \<open>lastProcessedDirectionRef\<close> is written by the tick and by
  \<open>startGame\<close> only. The timer handle and \<open>speedRef\<close> (the delay of the next
  timer) belong to the scheduler, which is not part of this model: a tick is the
  event that the scheduled callback runs.
\<close>

record App =
  snake :: Snake
  food :: Point
  direction :: Direction
  status :: GameStatus
  score :: int
  highScore :: number
  speed :: int
  snakeRef :: Snake
  directionRef :: Direction
  lastProcessedDirectionRef :: Direction

definition initialApp :: App where
  "initialApp = \<lparr>snake = INITIAL_SNAKE, food = \<lparr>x = 15, y = 15\<rparr>,
     direction = INITIAL_DIRECTION, status = IDLE, score = 0, highScore = Num 0,
     speed = INITIAL_SPEED, snakeRef = INITIAL_SNAKE,
     directionRef = INITIAL_DIRECTION,
     lastProcessedDirectionRef = INITIAL_DIRECTION\<rparr>"

section \<open>Helpers\<close>

text \<open>
  \<open>Math.random\<close> is an input of the program. The stream \<open>rnd\<close> holds, for each
  iteration of the sampling loop, the cell the two calls
  \<open>Math.floor(Math.random() * GRID_SIZE)\<close> produce; \<open>validDraws\<close> says that
  every such cell lies in the grid, which is what \<open>Math.random\<close> guarantees.
  The loop \<open>while (true)\<close> has no bound: not returning is the value \<open>None\<close>.
  The function returns the rest of the stream with the cell it found.
\<close>

definition onSnake :: "Snake \<Rightarrow> Point \<Rightarrow> bool" where
  "onSnake snk newPos = list_ex (\<lambda>seg. x seg = x newPos \<and> y seg = y newPos) snk"

partial_function (option) getRandomPosition ::
  "Snake \<Rightarrow> Point stream \<Rightarrow> (Point \<times> Point stream) option" where
  "getRandomPosition snk rnd =
     (let newPos = shd rnd in
      if \<not> onSnake snk newPos then Some (newPos, stl rnd)
      else getRandomPosition snk (stl rnd))"

definition validDraws :: "Point stream \<Rightarrow> bool" where
  "validDraws rnd =
     (\<forall>p \<in> sset rnd. 0 \<le> x p \<and> x p < GRID_SIZE \<and> 0 \<le> y p \<and> y p < GRID_SIZE)"

fun isOppositeDirection :: "Direction \<Rightarrow> Direction \<Rightarrow> bool" where
  "isOppositeDirection dir1 dir2 =
     (if dir1 = UP \<and> dir2 = DOWN then True
      else if dir1 = DOWN \<and> dir2 = UP then True
      else if dir1 = LEFT \<and> dir2 = RIGHT then True
      else if dir1 = RIGHT \<and> dir2 = LEFT then True
      else False)"

section \<open>Game logic\<close>

definition gameOver :: "App \<Rightarrow> App" where
  "gameOver s = s\<lparr>status := GAME_OVER\<rparr>"

text \<open>The \<open>switch\<close> that computes the new head from the current head.\<close>

definition offsetHead :: "Direction \<Rightarrow> Point \<Rightarrow> Point" where
  "offsetHead currentDir currentHead =
     (case currentDir of
        UP \<Rightarrow> currentHead\<lparr>y := y currentHead - 1\<rparr>
      | DOWN \<Rightarrow> currentHead\<lparr>y := y currentHead + 1\<rparr>
      | LEFT \<Rightarrow> currentHead\<lparr>x := x currentHead - 1\<rparr>
      | RIGHT \<Rightarrow> currentHead\<lparr>x := x currentHead + 1\<rparr>)"

definition wallCollision :: "Point \<Rightarrow> bool" where
  "wallCollision newHead =
     (x newHead < 0 \<or> x newHead \<ge> GRID_SIZE \<or> y newHead < 0 \<or> y newHead \<ge> GRID_SIZE)"

text \<open>
  The callback of \<open>some\<close> in the self-collision test receives each segment with
  its index and answers \<open>false\<close> at the last index.
\<close>

definition selfCollision :: "Snake \<Rightarrow> Point \<Rightarrow> bool" where
  "selfCollision snk newHead =
     list_ex (\<lambda>(seg, index).
                if index = length snk - 1 then False
                else x seg = x newHead \<and> y seg = y newHead)
             (zip snk [0..<length snk])"

text \<open>
  \<open>moveSnake\<close>, the tick. The closure variables \<open>status\<close> and \<open>food\<close> are the
  state's: the callback is rebuilt whenever either changes. With an empty
  \<open>snakeRef\<close> (never the case in a running game) JavaScript reads \<open>undefined\<close>
  as the head, the coordinates of the new head are \<open>undefined\<close> and \<open>NaN\<close>,
  every comparison with them is false, and the one-element list is emptied again
  by \<open>pop\<close>: that branch is written out.
\<close>

definition moveSnake :: "App \<Rightarrow> Point stream \<Rightarrow> (App \<times> Point stream) option" where
  "moveSnake s rnd =
     (if status s \<noteq> PLAYING then Some (s, rnd)
      else
        (case snakeRef s of
           [] \<Rightarrow> Some (s\<lparr>lastProcessedDirectionRef := directionRef s, snake := []\<rparr>, rnd)
         | currentHead # _ \<Rightarrow>
            (let currentDir = directionRef s;
                 s1 = s\<lparr>lastProcessedDirectionRef := currentDir\<rparr>;
                 newHead = offsetHead currentDir currentHead
             in if wallCollision newHead then Some (gameOver s1, rnd)
                else if selfCollision (snakeRef s) newHead then Some (gameOver s1, rnd)
                else
                  (let isEating = (x newHead = x (food s) \<and> y newHead = y (food s));
                       newSnake = newHead # snakeRef s
                   in if isEating then
                        (case getRandomPosition newSnake rnd of
                           None \<Rightarrow> None
                         | Some (p, rnd') \<Rightarrow>
                             Some (s1\<lparr>score := score s1 + 10,
                                      speed := max MIN_SPEED (speed s1 - SPEED_DECREMENT),
                                      food := p,
                                      snake := newSnake\<rparr>, rnd'))
                      else Some (s1\<lparr>snake := butlast newSnake\<rparr>, rnd)))))"

definition handleDirection :: "Direction \<Rightarrow> App \<Rightarrow> App" where
  "handleDirection newDir s =
     (if \<not> isOppositeDirection newDir (lastProcessedDirectionRef s)
      then s\<lparr>direction := newDir\<rparr> else s)"

definition startGame :: "App \<Rightarrow> Point stream \<Rightarrow> (App \<times> Point stream) option" where
  "startGame s rnd =
     (case getRandomPosition INITIAL_SNAKE rnd of
        None \<Rightarrow> None
      | Some (p, rnd') \<Rightarrow>
          Some (s\<lparr>snake := INITIAL_SNAKE,
                  direction := INITIAL_DIRECTION,
                  lastProcessedDirectionRef := INITIAL_DIRECTION,
                  score := 0,
                  speed := INITIAL_SPEED,
                  food := p,
                  status := PLAYING\<rparr>, rnd'))"

text \<open>
  \<open>handleKeyDown\<close>: \<open>key\<close> is \<open>e.key\<close>, \<open>code\<close> is \<open>e.code\<close>. Every test of
  \<open>status\<close> in the handler reads the value of the render that installed it.
\<close>

definition handleKeyDown ::
  "string \<Rightarrow> string \<Rightarrow> App \<Rightarrow> Point stream \<Rightarrow> (App \<times> Point stream) option" where
  "handleKeyDown key code s rnd =
     (let st = status s;
          s1 = (case KEY_MAP key of
                  None \<Rightarrow> s
                | Some mappedDir \<Rightarrow>
                    (let s' = handleDirection mappedDir s
                     in if st = IDLE then s'\<lparr>status := PLAYING\<rparr> else s'))
      in if code = ''Space'' then
           (if st = PLAYING then Some (s1\<lparr>status := PAUSED\<rparr>, rnd)
            else if st = PAUSED then Some (s1\<lparr>status := PLAYING\<rparr>, rnd)
            else if st = GAME_OVER \<or> st = IDLE then startGame s1 rnd
            else Some (s1, rnd))
         else Some (s1, rnd))"

section \<open>Startup, effects and events\<close>

text \<open>
  \<open>parseInt(stored, 10)\<close> as ECMAScript defines it: leading white space is
  skipped, one sign is read, the longest run of decimal digits is the numeral, and
  no digit at all gives \<open>NaN\<close>. The string is a list of code units below 256, so
  the white space is the ASCII one (tab, line feed, vertical tab, form feed,
  carriage return, space). \<open>Num n\<close> carries the integer the digits denote;
  JavaScript rounds it to a double, which changes nothing below \<open>2^53\<close>.
\<close>

definition isWhiteSpace :: "char \<Rightarrow> bool" where
  "isWhiteSpace c = ((of_char c :: nat) \<in> {9, 10, 11, 12, 13, 32})"

definition isDigit :: "char \<Rightarrow> bool" where
  "isDigit c = (48 \<le> (of_char c :: nat) \<and> (of_char c :: nat) \<le> 57)"

definition digitsValue :: "string \<Rightarrow> int" where
  "digitsValue Z = foldl (\<lambda>acc c. acc * 10 + (int (of_char c) - 48)) 0 Z"

definition parseInt10 :: "string \<Rightarrow> number" where
  "parseInt10 inputString =
     (let S = dropWhile isWhiteSpace inputString;
          sign = (case S of c # _ \<Rightarrow> if c = CHR ''-'' then - 1 else 1 | [] \<Rightarrow> (1::int));
          S' = (case S of c # r \<Rightarrow> if c = CHR ''+'' \<or> c = CHR ''-'' then r else S | [] \<Rightarrow> S);
          Z = takeWhile isDigit S'
      in if Z = [] then NaN else Num (sign * digitsValue Z))"

text \<open>
  The effect that runs once after the first render: \<open>stored\<close> is what
  \<open>localStorage.getItem\<close> returns (\<open>None\<close> for \<open>null\<close>); \<open>if (stored)\<close> is
  true for a string that is not empty.
\<close>

definition mount :: "string option \<Rightarrow> App \<Rightarrow> Point stream \<Rightarrow> (App \<times> Point stream) option" where
  "mount stored s rnd =
     (let s1 = (case stored of
                  None \<Rightarrow> s
                | Some str \<Rightarrow> if str \<noteq> [] then s\<lparr>highScore := parseInt10 str\<rparr> else s)
      in case getRandomPosition INITIAL_SNAKE rnd of
           None \<Rightarrow> None
         | Some (p, rnd') \<Rightarrow> Some (s1\<lparr>food := p\<rparr>, rnd'))"

text \<open>\<open>score > highScore\<close>: a comparison with \<open>NaN\<close> is false.\<close>

fun exceeds :: "int \<Rightarrow> number \<Rightarrow> bool" where
  "exceeds n NaN = False"
| "exceeds n (Num h) = (n > h)"

text \<open>
  The effects that run after a render: the refs are synchronised with the state
  and the high score follows the score.
\<close>

definition commit :: "App \<Rightarrow> App" where
  "commit s =
     (let s1 = s\<lparr>snakeRef := snake s, directionRef := direction s\<rparr>
      in if exceeds (score s1) (highScore s1) then s1\<lparr>highScore := Num (score s1)\<rparr> else s1)"

text \<open>
  The events of the component: a key press, a press on the direction pad, a click
  on the start button (rendered in \<open>IDLE\<close> and \<open>GAME_OVER\<close> only) and the
  scheduled tick.
\<close>

datatype Event = KeyDown string string | DPad Direction | StartButton | Tick

definition handle :: "Event \<Rightarrow> App \<Rightarrow> Point stream \<Rightarrow> (App \<times> Point stream) option" where
  "handle e s rnd =
     (case e of
        KeyDown key code \<Rightarrow> handleKeyDown key code s rnd
      | DPad d \<Rightarrow> Some (handleDirection d s, rnd)
      | StartButton \<Rightarrow>
          if status s = IDLE \<or> status s = GAME_OVER then startGame s rnd else Some (s, rnd)
      | Tick \<Rightarrow> moveSnake s rnd)"

definition step :: "Event \<Rightarrow> App \<Rightarrow> Point stream \<Rightarrow> (App \<times> Point stream) option" where
  "step e s rnd =
     (case handle e s rnd of None \<Rightarrow> None | Some (s', rnd') \<Rightarrow> Some (commit s', rnd'))"

definition boot :: "string option \<Rightarrow> Point stream \<Rightarrow> (App \<times> Point stream) option" where
  "boot stored rnd =
     (case mount stored initialApp rnd of
        None \<Rightarrow> None
      | Some (s', rnd') \<Rightarrow> Some (commit s', rnd'))"

fun play :: "Event list \<Rightarrow> App \<Rightarrow> Point stream \<Rightarrow> (App \<times> Point stream) option" where
  "play [] s rnd = Some (s, rnd)"
| "play (e # es) s rnd =
     (case step e s rnd of None \<Rightarrow> None | Some (s', rnd') \<Rightarrow> play es s' rnd')"

text \<open>
  An event starts a new game when it reaches \<open>startGame\<close>: the start button, or
  the space bar in \<open>IDLE\<close> or \<open>GAME_OVER\<close>.
\<close>

definition startsGame :: "Event \<Rightarrow> App \<Rightarrow> bool" where
  "startsGame e s =
     (case e of
        KeyDown key code \<Rightarrow> code = ''Space'' \<and> (status s = GAME_OVER \<or> status s = IDLE)
      | DPad d \<Rightarrow> False
      | StartButton \<Rightarrow> status s = IDLE \<or> status s = GAME_OVER
      | Tick \<Rightarrow> False)"

text \<open>\<open>sameGame es s rnd\<close>: no event of the run \<open>es\<close> from \<open>s\<close> starts a new game.\<close>

fun sameGame :: "Event list \<Rightarrow> App \<Rightarrow> Point stream \<Rightarrow> bool" where
  "sameGame [] s rnd = True"
| "sameGame (e # es) s rnd =
     (\<not> startsGame e s \<and>
      (case step e s rnd of None \<Rightarrow> True | Some (s', rnd') \<Rightarrow> sameGame es s' rnd'))"

text \<open>
  The reachable states: the state after startup, for any stored value and any
  random draws, and every state an event leads to.
\<close>

inductive reachable :: "App \<Rightarrow> bool" where
  reachable_boot: "boot stored rnd = Some (s, rnd') \<Longrightarrow> reachable s"
| reachable_step: "reachable s \<Longrightarrow> step e s rnd = Some (s', rnd') \<Longrightarrow> reachable s'"

section \<open>Concrete states\<close>

text \<open>The seed snake moving up: the initial state with the game running.\<close>

definition playingSeed :: App where
  "playingSeed = initialApp\<lparr>status := PLAYING\<rparr>"

text \<open>A snake whose head is on the left edge, heading left.\<close>

definition leftEdge :: App where
  "leftEdge = initialApp\<lparr>status := PLAYING,
     snake := [\<lparr>x = 0, y = 5\<rparr>, \<lparr>x = 1, y = 5\<rparr>, \<lparr>x = 2, y = 5\<rparr>],
     snakeRef := [\<lparr>x = 0, y = 5\<rparr>, \<lparr>x = 1, y = 5\<rparr>, \<lparr>x = 2, y = 5\<rparr>],
     direction := LEFT, directionRef := LEFT, lastProcessedDirectionRef := UP\<rparr>"

text \<open>
  A snake coiled in a square, its head about to enter the cell of its own last
  segment, with the food on that cell.
\<close>

definition tailChase :: App where
  "tailChase = initialApp\<lparr>status := PLAYING,
     snake := [\<lparr>x = 5, y = 5\<rparr>, \<lparr>x = 5, y = 6\<rparr>, \<lparr>x = 6, y = 6\<rparr>, \<lparr>x = 6, y = 5\<rparr>],
     snakeRef := [\<lparr>x = 5, y = 5\<rparr>, \<lparr>x = 5, y = 6\<rparr>, \<lparr>x = 6, y = 6\<rparr>, \<lparr>x = 6, y = 5\<rparr>],
     direction := RIGHT, directionRef := RIGHT, lastProcessedDirectionRef := UP,
     food := \<lparr>x = 6, y = 5\<rparr>\<rparr>"

text \<open>
  A snake on 399 of the 400 cells: from its head at (1,0) along row 0 to (19,0),
  then row by row in alternating directions down to (0,19); the food is on the
  one free cell (0,0), next to the head, and the snake is heading for it. Score
  and speed are those of a game in which 396 items were eaten.
\<close>

definition fullSnake :: Snake where
  "fullSnake =
     \<lparr>x = 1, y = 0\<rparr> # map (\<lambda>i. \<lparr>x = int i, y = 0\<rparr>) [2..<20] @
     concat (map (\<lambda>j. map (\<lambda>i. \<lparr>x = (if even j then int i else 19 - int i), y = int j\<rparr>)
                           [0..<20]) [1..<20])"

text \<open>\<open>fullGrid\<close> is the state, \<open>allCells\<close> every cell of the grid, row by row.\<close>

definition fullGrid :: App where
  "fullGrid = initialApp\<lparr>status := PLAYING, snake := fullSnake, snakeRef := fullSnake,
     direction := LEFT, directionRef := LEFT, lastProcessedDirectionRef := LEFT,
     food := \<lparr>x = 0, y = 0\<rparr>, score := 3960, speed := 60, highScore := Num 3960\<rparr>"

definition allCells :: "Point list" where
  "allCells = concat (map (\<lambda>j. map (\<lambda>i. \<lparr>x = int i, y = int j\<rparr>) [0..<20]) [0..<20])"

text \<open>Each segment of a snake is next to the one before it.\<close>

fun contiguous :: "Snake \<Rightarrow> bool" where
  "contiguous (p # q # ps) =
     (\<bar>x p - x q\<bar> + \<bar>y p - y q\<bar> = 1 \<and> contiguous (q # ps))"
| "contiguous ps = True"

text \<open>The seed snake with the food on the cell above its head.\<close>

definition beforeFood :: App where
  "beforeFood = initialApp\<lparr>status := PLAYING, food := \<lparr>x = 10, y = 9\<rparr>\<rparr>"

text \<open>
  The state after startup with nothing stored and the first draw (3,4), a press
  on the up arrow and one tick.
\<close>

definition firstTick :: App where
  "firstTick = \<lparr>snake = [\<lparr>x = 10, y = 9\<rparr>, \<lparr>x = 10, y = 10\<rparr>, \<lparr>x = 10, y = 11\<rparr>],
     food = \<lparr>x = 3, y = 4\<rparr>, direction = UP, status = PLAYING, score = 0,
     highScore = Num 0, speed = 150,
     snakeRef = [\<lparr>x = 10, y = 9\<rparr>, \<lparr>x = 10, y = 10\<rparr>, \<lparr>x = 10, y = 11\<rparr>],
     directionRef = UP, lastProcessedDirectionRef = UP\<rparr>"

text \<open>
  The state after startup with nothing stored and the first draw (10,9), the cell
  above the head; and the state one press on the up arrow and one tick later,
  the next draw being (3,4).
\<close>

definition foodAhead :: App where
  "foodAhead = initialApp\<lparr>food := \<lparr>x = 10, y = 9\<rparr>\<rparr>"

definition firstMeal :: App where
  "firstMeal = \<lparr>snake = [\<lparr>x = 10, y = 9\<rparr>, \<lparr>x = 10, y = 10\<rparr>, \<lparr>x = 10, y = 11\<rparr>,
                         \<lparr>x = 10, y = 12\<rparr>],
     food = \<lparr>x = 3, y = 4\<rparr>, direction = UP, status = PLAYING, score = 10,
     highScore = Num 10, speed = 148,
     snakeRef = [\<lparr>x = 10, y = 9\<rparr>, \<lparr>x = 10, y = 10\<rparr>, \<lparr>x = 10, y = 11\<rparr>,
                 \<lparr>x = 10, y = 12\<rparr>],
     directionRef = UP, lastProcessedDirectionRef = UP\<rparr>"

section \<open>Facts about the helpers\<close>

lemma Point_eq_iff: "(x p = x q \<and> y p = y q) = (p = (q::Point))"
  by (cases p, cases q) auto

lemma onSnake_iff: "onSnake snk p \<longleftrightarrow> p \<in> set snk"
  unfolding onSnake_def list_ex_iff Point_eq_iff by auto

lemma selfCollision_nth:
  "selfCollision snk p \<longleftrightarrow> (\<exists>i. i < length snk - 1 \<and> snk ! i = p)"
proof
  assume "selfCollision snk p"
  then obtain seg i where m: "(seg, i) \<in> set (zip snk [0..<length snk])"
      and ni: "i \<noteq> length snk - 1" and e: "seg = p"
    unfolding selfCollision_def list_ex_iff Point_eq_iff by (auto split: if_splits)
  from m obtain k where k: "k < length snk" "snk ! k = seg" "[0..<length snk] ! k = i"
    by (auto simp: in_set_zip)
  then have "i = k" by simp
  with k ni e show "\<exists>i. i < length snk - 1 \<and> snk ! i = p" by (intro exI[of _ k]) auto
next
  assume "\<exists>i. i < length snk - 1 \<and> snk ! i = p"
  then obtain i where i: "i < length snk - 1" "snk ! i = p" by blast
  then have "(p, i) \<in> set (zip snk [0..<length snk])"
    by (auto simp: in_set_zip intro!: exI[of _ i])
  with i show "selfCollision snk p"
    unfolding selfCollision_def list_ex_iff Point_eq_iff by (auto intro!: bexI[of _ "(p, i)"])
qed

lemma selfCollision_iff: "selfCollision snk p \<longleftrightarrow> p \<in> set (butlast snk)"
  unfolding selfCollision_nth by (auto simp: in_set_conv_nth nth_butlast)

lemma getRandomPosition_hit:
  "\<not> onSnake snk (shd rnd) \<Longrightarrow> getRandomPosition snk rnd = Some (shd rnd, stl rnd)"
  by (subst getRandomPosition.simps) simp

lemma getRandomPosition_miss:
  "onSnake snk (shd rnd) \<Longrightarrow> getRandomPosition snk rnd = getRandomPosition snk (stl rnd)"
  by (subst getRandomPosition.simps) simp

lemma getRandomPosition_returns:
  "\<not> onSnake snk (rnd !! n) \<Longrightarrow>
   \<exists>p rnd'. getRandomPosition snk rnd = Some (p, rnd') \<and> \<not> onSnake snk p"
proof (induction n arbitrary: rnd)
  case 0
  then show ?case by (simp add: getRandomPosition_hit)
next
  case (Suc n)
  show ?case
  proof (cases "onSnake snk (shd rnd)")
    case True
    from Suc.prems have "\<not> onSnake snk (stl rnd !! n)" by simp
    from Suc.IH[OF this] True show ?thesis by (simp add: getRandomPosition_miss)
  next
    case False
    then show ?thesis by (simp add: getRandomPosition_hit)
  qed
qed

lemma getRandomPosition_sound_aux:
  assumes "getRandomPosition snk rnd = Some r"
  shows "\<not> onSnake snk (fst r) \<and> fst r \<in> sset rnd"
proof (rule getRandomPosition.raw_induct
    [where P = "\<lambda>snk rnd r. \<not> onSnake snk (fst r) \<and> fst r \<in> sset rnd", OF _ assms])
  fix g snk rnd r
  assume IH: "\<And>snk rnd r. g snk rnd = Some r \<Longrightarrow> \<not> onSnake snk (fst r) \<and> fst r \<in> sset rnd"
    and eq: "(let newPos = shd rnd in
               if \<not> onSnake snk newPos then Some (newPos, stl rnd) else g snk (stl rnd)) = Some r"
  show "\<not> onSnake snk (fst r) \<and> fst r \<in> sset rnd"
  proof (cases "onSnake snk (shd rnd)")
    case True
    with eq have "g snk (stl rnd) = Some r" by (simp add: Let_def)
    from IH[OF this] show ?thesis by (auto intro: stl_sset)
  next
    case False
    with eq have "r = (shd rnd, stl rnd)" by (simp add: Let_def)
    with False show ?thesis by (simp add: shd_sset)
  qed
qed

lemma getRandomPosition_sound:
  "getRandomPosition snk rnd = Some (p, rnd') \<Longrightarrow> \<not> onSnake snk p \<and> p \<in> sset rnd"
  using getRandomPosition_sound_aux[of snk rnd "(p, rnd')"] by simp

lemma getRandomPosition_blocked:
  assumes "\<forall>p \<in> sset rnd. onSnake snk p"
  shows "getRandomPosition snk rnd = None"
proof (cases "getRandomPosition snk rnd")
  case None
  then show ?thesis .
next
  case (Some r)
  obtain p rnd' where "r = (p, rnd')" by (cases r)
  with Some getRandomPosition_sound[of snk rnd p rnd'] assms show ?thesis by auto
qed

section \<open>The branches of the tick\<close>

lemma moveSnake_not_playing:
  "status s \<noteq> PLAYING \<Longrightarrow> moveSnake s rnd = Some (s, rnd)"
  by (simp add: moveSnake_def)

lemma moveSnake_wall:
  assumes "status s = PLAYING" "snakeRef s = currentHead # rest"
    and "wallCollision (offsetHead (directionRef s) currentHead)"
  shows "moveSnake s rnd =
           Some (s\<lparr>lastProcessedDirectionRef := directionRef s, status := GAME_OVER\<rparr>, rnd)"
  using assms by (simp add: moveSnake_def gameOver_def Let_def)

lemma moveSnake_self:
  assumes "status s = PLAYING" "snakeRef s = currentHead # rest"
    and "\<not> wallCollision (offsetHead (directionRef s) currentHead)"
    and "selfCollision (snakeRef s) (offsetHead (directionRef s) currentHead)"
  shows "moveSnake s rnd =
           Some (s\<lparr>lastProcessedDirectionRef := directionRef s, status := GAME_OVER\<rparr>, rnd)"
  using assms by (simp add: moveSnake_def gameOver_def Let_def)

lemma moveSnake_plain:
  assumes "status s = PLAYING" "snakeRef s = currentHead # rest"
    and "\<not> wallCollision (offsetHead (directionRef s) currentHead)"
    and "\<not> selfCollision (snakeRef s) (offsetHead (directionRef s) currentHead)"
    and "offsetHead (directionRef s) currentHead \<noteq> food s"
  shows "moveSnake s rnd =
           Some (s\<lparr>lastProcessedDirectionRef := directionRef s,
                   snake := offsetHead (directionRef s) currentHead # butlast (snakeRef s)\<rparr>, rnd)"
  using assms by (simp add: moveSnake_def Let_def Point_eq_iff)

lemma moveSnake_eat:
  assumes "status s = PLAYING" "snakeRef s = currentHead # rest"
    and "\<not> wallCollision (offsetHead (directionRef s) currentHead)"
    and "\<not> selfCollision (snakeRef s) (offsetHead (directionRef s) currentHead)"
    and "offsetHead (directionRef s) currentHead = food s"
  shows "moveSnake s rnd =
           (case getRandomPosition (food s # snakeRef s) rnd of
              None \<Rightarrow> None
            | Some (p, rnd') \<Rightarrow>
                Some (s\<lparr>lastProcessedDirectionRef := directionRef s,
                        score := score s + 10,
                        speed := max MIN_SPEED (speed s - SPEED_DECREMENT),
                        food := p,
                        snake := food s # snakeRef s\<rparr>, rnd'))"
  using assms by (simp add: moveSnake_def Let_def Point_eq_iff split: option.splits)

lemma moveSnake_seed_up:
  assumes "status t = PLAYING"
    and "snakeRef t = [\<lparr>x = 10, y = 10\<rparr>, \<lparr>x = 10, y = 11\<rparr>, \<lparr>x = 10, y = 12\<rparr>]"
    and "directionRef t = UP" and "food t \<noteq> \<lparr>x = 10, y = 9\<rparr>"
  shows "moveSnake t rnd =
     Some (t\<lparr>lastProcessedDirectionRef := UP,
             snake := [\<lparr>x = 10, y = 9\<rparr>, \<lparr>x = 10, y = 10\<rparr>, \<lparr>x = 10, y = 11\<rparr>]\<rparr>, rnd)"
proof -
  have h0: "offsetHead UP \<lparr>x = 10, y = 10\<rparr> = \<lparr>x = 10, y = 9\<rparr>"
    by (simp add: offsetHead_def)
  have h: "offsetHead (directionRef t) \<lparr>x = 10, y = 10\<rparr> = \<lparr>x = 10, y = 9\<rparr>"
    using assms(3) h0 by simp
  have w: "\<not> wallCollision (offsetHead (directionRef t) \<lparr>x = 10, y = 10\<rparr>)"
    unfolding h by (simp add: wallCollision_def GRID_SIZE_def)
  have c: "\<not> selfCollision (snakeRef t) (offsetHead (directionRef t) \<lparr>x = 10, y = 10\<rparr>)"
    unfolding h assms(2) by (simp add: selfCollision_iff)
  have f: "offsetHead (directionRef t) \<lparr>x = 10, y = 10\<rparr> \<noteq> food t"
    unfolding h using assms(4) by simp
  show ?thesis
    using moveSnake_plain[OF assms(1) assms(2) w c f, of rnd] by (simp add: h0 assms(2,3))
qed

lemma playingSeed_fields:
  "status playingSeed = PLAYING"
  "snakeRef playingSeed = [\<lparr>x = 10, y = 10\<rparr>, \<lparr>x = 10, y = 11\<rparr>, \<lparr>x = 10, y = 12\<rparr>]"
  "snake playingSeed = [\<lparr>x = 10, y = 10\<rparr>, \<lparr>x = 10, y = 11\<rparr>, \<lparr>x = 10, y = 12\<rparr>]"
  "directionRef playingSeed = UP"
  "food playingSeed = \<lparr>x = 15, y = 15\<rparr>"
  "score playingSeed = 0" "speed playingSeed = 150" "highScore playingSeed = Num 0"
  by (simp_all add: playingSeed_def initialApp_def INITIAL_SNAKE_def INITIAL_DIRECTION_def
      INITIAL_SPEED_def)

lemma moveSnake_eat_returns:
  assumes "status s = PLAYING" "snakeRef s = currentHead # rest"
    and "\<not> wallCollision (offsetHead (directionRef s) currentHead)"
    and "\<not> selfCollision (snakeRef s) (offsetHead (directionRef s) currentHead)"
    and "offsetHead (directionRef s) currentHead = food s"
    and "rnd !! n \<notin> set (food s # snakeRef s)"
  shows "\<exists>p rnd'. moveSnake s rnd =
            Some (s\<lparr>lastProcessedDirectionRef := directionRef s,
                    score := score s + 10,
                    speed := max MIN_SPEED (speed s - SPEED_DECREMENT),
                    food := p,
                    snake := food s # snakeRef s\<rparr>, rnd')
          \<and> p \<notin> set (food s # snakeRef s)"
proof -
  from assms(6) have "\<not> onSnake (food s # snakeRef s) (rnd !! n)"
    by (simp only: onSnake_iff not_False_eq_True)
  from getRandomPosition_returns[OF this]
  obtain p rnd' where g: "getRandomPosition (food s # snakeRef s) rnd = Some (p, rnd')"
    and p: "\<not> onSnake (food s # snakeRef s) p" by blast
  from p have q: "p \<notin> set (food s # snakeRef s)"
    by (simp only: onSnake_iff not_False_eq_True)
  from moveSnake_eat[OF assms(1-5), of rnd] g
  have "moveSnake s rnd =
            Some (s\<lparr>lastProcessedDirectionRef := directionRef s,
                    score := score s + 10,
                    speed := max MIN_SPEED (speed s - SPEED_DECREMENT),
                    food := p,
                    snake := food s # snakeRef s\<rparr>, rnd')" by simp
  with q show ?thesis by blast
qed

lemma moveSnake_eat_sound:
  assumes "status s = PLAYING" "snakeRef s = currentHead # rest"
    and "\<not> wallCollision (offsetHead (directionRef s) currentHead)"
    and "\<not> selfCollision (snakeRef s) (offsetHead (directionRef s) currentHead)"
    and "offsetHead (directionRef s) currentHead = food s"
    and "moveSnake s rnd = Some (s', rnd')"
  shows "\<exists>p. s' = s\<lparr>lastProcessedDirectionRef := directionRef s,
                    score := score s + 10,
                    speed := max MIN_SPEED (speed s - SPEED_DECREMENT),
                    food := p,
                    snake := food s # snakeRef s\<rparr>
          \<and> p \<notin> set (food s # snakeRef s)"
proof -
  from moveSnake_eat[OF assms(1-5), of rnd] assms(6)
  obtain p where g: "getRandomPosition (food s # snakeRef s) rnd = Some (p, rnd')"
    and s': "s' = s\<lparr>lastProcessedDirectionRef := directionRef s,
                    score := score s + 10,
                    speed := max MIN_SPEED (speed s - SPEED_DECREMENT),
                    food := p,
                    snake := food s # snakeRef s\<rparr>"
    by (auto split: option.splits)
  from getRandomPosition_sound[OF g] have "p \<notin> set (food s # snakeRef s)"
    by (simp only: onSnake_iff not_False_eq_True)
  with s' show ?thesis by blast
qed

lemma moveSnake_no_collision_status:
  assumes "status s = PLAYING" "snakeRef s = currentHead # rest"
    and "\<not> wallCollision (offsetHead (directionRef s) currentHead)"
    and "\<not> selfCollision (snakeRef s) (offsetHead (directionRef s) currentHead)"
    and "moveSnake s rnd = Some (s', rnd')"
  shows "status s' = PLAYING"
proof (cases "offsetHead (directionRef s) currentHead = food s")
  case True
  from moveSnake_eat_sound[OF assms(1-4) True assms(5)] assms(1)
  show ?thesis by auto
next
  case False
  from moveSnake_plain[OF assms(1-4) False, of rnd] assms(5,1) show ?thesis by auto
qed

lemma leftEdge_fields:
  "status leftEdge = PLAYING"
  "snakeRef leftEdge = [\<lparr>x = 0, y = 5\<rparr>, \<lparr>x = 1, y = 5\<rparr>, \<lparr>x = 2, y = 5\<rparr>]"
  "snake leftEdge = [\<lparr>x = 0, y = 5\<rparr>, \<lparr>x = 1, y = 5\<rparr>, \<lparr>x = 2, y = 5\<rparr>]"
  "directionRef leftEdge = LEFT" "direction leftEdge = LEFT"
  "food leftEdge = \<lparr>x = 15, y = 15\<rparr>"
  "score leftEdge = 0" "speed leftEdge = 150" "highScore leftEdge = Num 0"
  by (simp_all add: leftEdge_def initialApp_def INITIAL_SPEED_def)

lemma tailChase_fields:
  "status tailChase = PLAYING"
  "snakeRef tailChase = [\<lparr>x = 5, y = 5\<rparr>, \<lparr>x = 5, y = 6\<rparr>, \<lparr>x = 6, y = 6\<rparr>, \<lparr>x = 6, y = 5\<rparr>]"
  "directionRef tailChase = RIGHT"
  "food tailChase = \<lparr>x = 6, y = 5\<rparr>"
  by (simp_all add: tailChase_def initialApp_def)

section \<open>The full grid\<close>

lemma fullSnake_length: "length fullSnake = 399"
  by (simp add: fullSnake_def length_concat comp_def sum_list_triv)

lemma set_fullSnake:
  "set fullSnake =
     insert \<lparr>x = 1, y = 0\<rparr>
       ((\<lambda>i. \<lparr>x = int i, y = 0\<rparr>) ` {2..<20} \<union>
        (\<Union>j\<in>{1..<20}.
           (\<lambda>i. \<lparr>x = (if even j then int i else 19 - int i), y = int j\<rparr>) ` {0..<20}))"
  by (simp add: fullSnake_def del: upt_rec_numeral)

lemma set_allCells:
  "set allCells = (\<Union>j\<in>{0..<20}. (\<lambda>i. \<lparr>x = int i, y = int j\<rparr>) ` {0..<20})"
  by (simp add: allCells_def del: upt_rec_numeral)

lemma fullSnake_no_origin: "\<lparr>x = 0, y = 0\<rparr> \<notin> set fullSnake"
  unfolding set_fullSnake by auto

lemma fullSnake_covers:
  assumes "0 \<le> x p" "x p < 20" "0 \<le> y p" "y p < 20"
  shows "p \<in> set (\<lparr>x = 0, y = 0\<rparr> # fullSnake)"
proof (cases "y p = 0")
  case True
  have p: "p = \<lparr>x = x p, y = 0\<rparr>" using True by (cases p) simp
  consider "x p = 0" | "x p = 1" | "2 \<le> x p" using assms(1) by linarith
  then show ?thesis
  proof cases
    case 1 with p show ?thesis by simp
  next
    case 2 with p show ?thesis by (simp add: set_fullSnake)
  next
    case 3
    then have "nat (x p) \<in> {2..<20}" using assms(2) by auto
    moreover have "p = \<lparr>x = int (nat (x p)), y = 0\<rparr>" using p 3 by simp
    ultimately have "p \<in> (\<lambda>i. \<lparr>x = int i, y = 0\<rparr>) ` {2..<20}" by (rule rev_image_eqI)
    then have "p \<in> set fullSnake" unfolding set_fullSnake by blast
    then show ?thesis by simp
  qed
next
  case False
  define j where "j = nat (y p)"
  define i where "i = (if even j then nat (x p) else nat (19 - x p))"
  have j: "j \<in> {1..<20}" using False assms(3,4) by (auto simp: j_def)
  have i: "i \<in> {0..<20}" using assms(1,2) by (auto simp: i_def)
  have "p = \<lparr>x = (if even j then int i else 19 - int i), y = int j\<rparr>"
    using assms by (cases p) (auto simp: i_def j_def)
  with i have "p \<in> (\<lambda>i. \<lparr>x = (if even j then int i else 19 - int i), y = int j\<rparr>) ` {0..<20}"
    by (rule_tac rev_image_eqI)
  with j have "p \<in> (\<Union>j\<in>{1..<20}.
      (\<lambda>i. \<lparr>x = (if even j then int i else 19 - int i), y = int j\<rparr>) ` {0..<20})"
    by blast
  then have "p \<in> set fullSnake" unfolding set_fullSnake by blast
  then show ?thesis by simp
qed

lemma allCells_in_grid:
  "p \<in> set allCells \<Longrightarrow> 0 \<le> x p \<and> x p < 20 \<and> 0 \<le> y p \<and> y p < 20"
  unfolding set_allCells by auto

lemma allCells_nonempty: "allCells \<noteq> []"
proof -
  have "length allCells = 400"
    by (simp add: allCells_def length_concat comp_def sum_list_triv)
  then show ?thesis by auto
qed

lemma fullGrid_fields:
  "status fullGrid = PLAYING" "snakeRef fullGrid = fullSnake" "directionRef fullGrid = LEFT"
  "food fullGrid = \<lparr>x = 0, y = 0\<rparr>"
  by (simp_all add: fullGrid_def)

lemma fullGrid_head: "snakeRef fullGrid = \<lparr>x = 1, y = 0\<rparr> # tl fullSnake"
  by (simp add: fullGrid_fields fullSnake_def)

lemma fullGrid_offset: "offsetHead (directionRef fullGrid) \<lparr>x = 1, y = 0\<rparr> = food fullGrid"
  by (simp add: fullGrid_fields offsetHead_def)

lemma fullGrid_no_wall: "\<not> wallCollision (offsetHead (directionRef fullGrid) \<lparr>x = 1, y = 0\<rparr>)"
  unfolding fullGrid_offset by (simp add: fullGrid_fields wallCollision_def GRID_SIZE_def)

lemma fullGrid_no_self:
  "\<not> selfCollision (snakeRef fullGrid) (offsetHead (directionRef fullGrid) \<lparr>x = 1, y = 0\<rparr>)"
proof -
  have "food fullGrid \<notin> set (butlast (snakeRef fullGrid))"
    unfolding fullGrid_fields using fullSnake_no_origin by (auto dest: in_set_butlastD)
  then show ?thesis unfolding fullGrid_offset selfCollision_iff .
qed

lemma fullGrid_blocks:
  assumes "validDraws rnd"
  shows "moveSnake fullGrid rnd = None"
proof -
  have "\<forall>p \<in> sset rnd. onSnake (food fullGrid # snakeRef fullGrid) p"
  proof
    fix p assume "p \<in> sset rnd"
    with assms have "0 \<le> x p \<and> x p < 20 \<and> 0 \<le> y p \<and> y p < 20"
      by (simp add: validDraws_def GRID_SIZE_def)
    then have "p \<in> set (\<lparr>x = 0, y = 0\<rparr> # fullSnake)" by (intro fullSnake_covers) simp_all
    then show "onSnake (food fullGrid # snakeRef fullGrid) p"
      unfolding onSnake_iff fullGrid_fields .
  qed
  then have "getRandomPosition (food fullGrid # snakeRef fullGrid) rnd = None"
    by (rule getRandomPosition_blocked)
  with moveSnake_eat[OF fullGrid_fields(1) fullGrid_head fullGrid_no_wall fullGrid_no_self
      fullGrid_offset, of rnd]
  show ?thesis by simp
qed

lemma validDraws_allCells: "validDraws (cycle allCells)"
  unfolding validDraws_def using allCells_in_grid
  by (simp add: allCells_nonempty GRID_SIZE_def)

lemma fullSnake_contiguous: "contiguous fullSnake"
  unfolding fullSnake_def by code_simp

lemma fullSnake_distinct: "distinct (\<lparr>x = 0, y = 0\<rparr> # fullSnake)"
proof -
  let ?G = "(\<lambda>(i, j). \<lparr>x = int i, y = int j\<rparr>) ` ({0..<20::nat} \<times> {0..<20::nat})"
  have "inj_on (\<lambda>(i, j). \<lparr>x = int i, y = int j\<rparr>) ({0..<20::nat} \<times> {0..<20::nat})"
    by (auto simp: inj_on_def)
  then have "card ?G = card ({0..<20::nat} \<times> {0..<20::nat})" by (rule card_image)
  then have G: "card ?G = 400" by simp
  have "?G \<subseteq> set (\<lparr>x = 0, y = 0\<rparr> # fullSnake)"
  proof
    fix p assume "p \<in> ?G"
    then have "0 \<le> x p \<and> x p < 20 \<and> 0 \<le> y p \<and> y p < 20" by auto
    then show "p \<in> set (\<lparr>x = 0, y = 0\<rparr> # fullSnake)" by (intro fullSnake_covers) simp_all
  qed
  then have "card ?G \<le> card (set (\<lparr>x = 0, y = 0\<rparr> # fullSnake))"
    by (intro card_mono) simp_all
  moreover have "card (set (\<lparr>x = 0, y = 0\<rparr> # fullSnake)) \<le> length (\<lparr>x = 0, y = 0\<rparr> # fullSnake)"
    by (rule card_length)
  moreover have "length (\<lparr>x = 0, y = 0\<rparr> # fullSnake) = 400"
    by (simp add: fullSnake_length)
  ultimately have "card (set (\<lparr>x = 0, y = 0\<rparr> # fullSnake)) = length (\<lparr>x = 0, y = 0\<rparr> # fullSnake)"
    using G by linarith
  then show ?thesis by (rule card_distinct)
qed

lemma beforeFood_fields:
  "status beforeFood = PLAYING"
  "snakeRef beforeFood = [\<lparr>x = 10, y = 10\<rparr>, \<lparr>x = 10, y = 11\<rparr>, \<lparr>x = 10, y = 12\<rparr>]"
  "directionRef beforeFood = UP"
  "food beforeFood = \<lparr>x = 10, y = 9\<rparr>"
  "score beforeFood = 0" "speed beforeFood = 150"
  by (simp_all add: beforeFood_def initialApp_def INITIAL_SNAKE_def INITIAL_DIRECTION_def
      INITIAL_SPEED_def)

section \<open>Events and reachable states\<close>

lemma commit_fields [simp]:
  "snake (commit s) = snake s" "speed (commit s) = speed s" "food (commit s) = food s"
  "status (commit s) = status s" "score (commit s) = score s"
  "direction (commit s) = direction s"
  "snakeRef (commit s) = snake s" "directionRef (commit s) = direction s"
  "lastProcessedDirectionRef (commit s) = lastProcessedDirectionRef s"
  by (simp_all add: commit_def Let_def)

lemma handleDirection_fields [simp]:
  "snake (handleDirection d s) = snake s" "speed (handleDirection d s) = speed s"
  "snakeRef (handleDirection d s) = snakeRef s" "status (handleDirection d s) = status s"
  "food (handleDirection d s) = food s" "score (handleDirection d s) = score s"
  by (simp_all add: handleDirection_def)

lemma startGame_fields:
  assumes "startGame s rnd = Some (s', rnd')"
  shows "snake s' = INITIAL_SNAKE" "speed s' = INITIAL_SPEED" "status s' = PLAYING"
    "score s' = 0" "direction s' = INITIAL_DIRECTION"
    "lastProcessedDirectionRef s' = INITIAL_DIRECTION"
    "food s' \<notin> set INITIAL_SNAKE"
proof -
  from assms obtain p where g: "getRandomPosition INITIAL_SNAKE rnd = Some (p, rnd')"
    and s': "s' = s\<lparr>snake := INITIAL_SNAKE, direction := INITIAL_DIRECTION,
                  lastProcessedDirectionRef := INITIAL_DIRECTION, score := 0,
                  speed := INITIAL_SPEED, food := p, status := PLAYING\<rparr>"
    by (auto simp: startGame_def split: option.splits)
  from getRandomPosition_sound[OF g] have "p \<notin> set INITIAL_SNAKE"
    by (simp only: onSnake_iff not_False_eq_True)
  with s' show "snake s' = INITIAL_SNAKE" "speed s' = INITIAL_SPEED" "status s' = PLAYING"
    "score s' = 0" "direction s' = INITIAL_DIRECTION"
    "lastProcessedDirectionRef s' = INITIAL_DIRECTION"
    "food s' \<notin> set INITIAL_SNAKE"
    by simp_all
qed

text \<open>What one tick does to snake and speed.\<close>

lemma moveSnake_cases:
  assumes "moveSnake s rnd = Some (s', rnd')"
  obtains
    (still) "snake s' = snake s" "speed s' = speed s"
  | (emptied) "snakeRef s = []" "snake s' = []" "speed s' = speed s"
  | (plain) currentHead rest where "status s = PLAYING" "snakeRef s = currentHead # rest"
      "\<not> wallCollision (offsetHead (directionRef s) currentHead)"
      "snake s' = offsetHead (directionRef s) currentHead # butlast (snakeRef s)"
      "speed s' = speed s"
  | (grow) currentHead rest where "status s = PLAYING" "snakeRef s = currentHead # rest"
      "\<not> wallCollision (offsetHead (directionRef s) currentHead)"
      "snake s' = offsetHead (directionRef s) currentHead # snakeRef s"
      "speed s' = max MIN_SPEED (speed s - SPEED_DECREMENT)"
proof (cases "status s = PLAYING")
  case False
  with assms have "s' = s" by (simp add: moveSnake_not_playing)
  then show ?thesis by (intro still) simp_all
next
  case True
  show ?thesis
  proof (cases "snakeRef s")
    case Nil
    with True assms have "s' = s\<lparr>lastProcessedDirectionRef := directionRef s, snake := []\<rparr>"
      by (simp add: moveSnake_def)
    with Nil show ?thesis by (intro emptied) simp_all
  next
    case (Cons currentHead rest)
    let ?n = "offsetHead (directionRef s) currentHead"
    show ?thesis
    proof (cases "wallCollision ?n")
      case w: True
      from moveSnake_wall[OF True Cons w, of rnd] assms show ?thesis
        by (intro still) auto
    next
      case w: False
      show ?thesis
      proof (cases "selfCollision (snakeRef s) ?n")
        case c: True
        from moveSnake_self[OF True Cons w c, of rnd] assms show ?thesis
          by (intro still) auto
      next
        case c: False
        show ?thesis
        proof (cases "?n = food s")
          case f: True
          from moveSnake_eat_sound[OF True Cons w c f assms] obtain p where
            "s' = s\<lparr>lastProcessedDirectionRef := directionRef s,
                    score := score s + 10,
                    speed := max MIN_SPEED (speed s - SPEED_DECREMENT),
                    food := p,
                    snake := food s # snakeRef s\<rparr>" by blast
          then have "snake s' = food s # snakeRef s"
            "speed s' = max MIN_SPEED (speed s - SPEED_DECREMENT)"
            by simp_all
          with True Cons w f show ?thesis by (intro grow[of currentHead rest]) simp_all
        next
          case f: False
          from moveSnake_plain[OF True Cons w c f, of rnd] assms
          have "s' = s\<lparr>lastProcessedDirectionRef := directionRef s,
                   snake := ?n # butlast (snakeRef s)\<rparr>" by simp
          with True Cons w show ?thesis by (intro plain[of currentHead rest]) simp_all
        qed
      qed
    qed
  qed
qed


text \<open>What one event does to snake and speed, before the render.\<close>

lemma handleKeyDown_cases:
  assumes "handleKeyDown key code s rnd = Some (s', rnd')"
  obtains
    (still) "snake s' = snake s" "speed s' = speed s"
  | (restart) "code = ''Space''" "status s = GAME_OVER \<or> status s = IDLE"
      "snake s' = INITIAL_SNAKE" "speed s' = INITIAL_SPEED"
proof -
  define s1 where "s1 = (case KEY_MAP key of
                  None \<Rightarrow> s
                | Some mappedDir \<Rightarrow>
                    (let s' = handleDirection mappedDir s
                     in if status s = IDLE then s'\<lparr>status := PLAYING\<rparr> else s'))"
  have s1: "snake s1 = snake s" "speed s1 = speed s"
    by (simp_all add: s1_def Let_def split: option.splits)
  have k: "handleKeyDown key code s rnd =
      (if code = ''Space'' then
           (if status s = PLAYING then Some (s1\<lparr>status := PAUSED\<rparr>, rnd)
            else if status s = PAUSED then Some (s1\<lparr>status := PLAYING\<rparr>, rnd)
            else if status s = GAME_OVER \<or> status s = IDLE then startGame s1 rnd
            else Some (s1, rnd))
         else Some (s1, rnd))"
    unfolding handleKeyDown_def s1_def Let_def ..
  show ?thesis
  proof (cases "code = ''Space'' \<and> (status s = GAME_OVER \<or> status s = IDLE)")
    case True
    with k assms have "startGame s1 rnd = Some (s', rnd')" by auto
    from startGame_fields(1,2)[OF this] True show ?thesis by (intro restart) simp_all
  next
    case False
    with k assms have "s' = s1 \<or> s' = s1\<lparr>status := PAUSED\<rparr> \<or> s' = s1\<lparr>status := PLAYING\<rparr>"
      by (auto split: if_splits)
    with s1 show ?thesis by (intro still) auto
  qed
qed

lemma handle_cases:
  assumes "handle e s rnd = Some (s', rnd')"
  obtains
    (still) "snake s' = snake s" "speed s' = speed s"
  | (restart) "startsGame e s" "snake s' = INITIAL_SNAKE" "speed s' = INITIAL_SPEED"
  | (emptied) "e = Tick" "snakeRef s = []" "snake s' = []" "speed s' = speed s"
  | (plain) currentHead rest where "e = Tick" "status s = PLAYING"
      "snakeRef s = currentHead # rest"
      "\<not> wallCollision (offsetHead (directionRef s) currentHead)"
      "snake s' = offsetHead (directionRef s) currentHead # butlast (snakeRef s)"
      "speed s' = speed s"
  | (grow) currentHead rest where "e = Tick" "status s = PLAYING"
      "snakeRef s = currentHead # rest"
      "\<not> wallCollision (offsetHead (directionRef s) currentHead)"
      "snake s' = offsetHead (directionRef s) currentHead # snakeRef s"
      "speed s' = max MIN_SPEED (speed s - SPEED_DECREMENT)"
proof (cases e)
  case (KeyDown key code)
  with assms have "handleKeyDown key code s rnd = Some (s', rnd')" by (simp add: handle_def)
  then show ?thesis
  proof (cases rule: handleKeyDown_cases)
    case still
    then show ?thesis by (rule that(1))
  next
    case restart
    with KeyDown show ?thesis by (intro that(2)) (simp_all add: startsGame_def)
  qed
next
  case (DPad d)
  with assms have "s' = handleDirection d s" by (simp add: handle_def)
  then show ?thesis by (intro that(1)) simp_all
next
  case StartButton
  show ?thesis
  proof (cases "status s = IDLE \<or> status s = GAME_OVER")
    case True
    with StartButton assms have "startGame s rnd = Some (s', rnd')" by (simp add: handle_def)
    from startGame_fields(1,2)[OF this] True StartButton show ?thesis
      by (intro that(2)) (simp_all add: startsGame_def)
  next
    case False
    with StartButton assms have "s' = s" by (simp add: handle_def)
    then show ?thesis by (intro that(1)) simp_all
  qed
next
  case Tick
  with assms have "moveSnake s rnd = Some (s', rnd')" by (simp add: handle_def)
  then show ?thesis
  proof (cases rule: moveSnake_cases)
    case still
    then show ?thesis by (rule that(1))
  next
    case emptied
    with Tick show ?thesis by (intro that(3)) simp_all
  next
    case (plain currentHead rest)
    with Tick show ?thesis by (intro that(4)[of currentHead rest]) simp_all
  next
    case (grow currentHead rest)
    with Tick show ?thesis by (intro that(5)[of currentHead rest]) simp_all
  qed
qed

lemma step_handle:
  assumes "step e s rnd = Some (s', rnd')"
  obtains s1 where "handle e s rnd = Some (s1, rnd')" "s' = commit s1"
  using assms by (auto simp: step_def split: option.splits)

text \<open>The invariant of the reachable states.\<close>

lemma INITIAL_SNAKE_good:
  "length INITIAL_SNAKE = 3" "\<forall>p \<in> set INITIAL_SNAKE. \<not> wallCollision p"
  by (simp_all add: INITIAL_SNAKE_def wallCollision_def GRID_SIZE_def)

lemma step_invariant:
  assumes "step e s rnd = Some (s', rnd')"
    and "snakeRef s = snake s"
    and "\<forall>p \<in> set (snake s). \<not> wallCollision p"
    and "3 \<le> length (snake s)"
    and "MIN_SPEED \<le> speed s" "speed s \<le> INITIAL_SPEED"
  shows "snakeRef s' = snake s' \<and> directionRef s' = direction s' \<and>
         (\<forall>p \<in> set (snake s'). \<not> wallCollision p) \<and> 3 \<le> length (snake s') \<and>
         MIN_SPEED \<le> speed s' \<and> speed s' \<le> INITIAL_SPEED"
proof -
  from assms(1) obtain s1 where h: "handle e s rnd = Some (s1, rnd')" and c: "s' = commit s1"
    by (rule step_handle)
  have "(\<forall>p \<in> set (snake s1). \<not> wallCollision p) \<and> 3 \<le> length (snake s1) \<and>
         MIN_SPEED \<le> speed s1 \<and> speed s1 \<le> INITIAL_SPEED"
    using h
  proof (cases rule: handle_cases)
    case still
    with assms show ?thesis by simp
  next
    case restart
    with INITIAL_SNAKE_good show ?thesis
      by (simp add: MIN_SPEED_def INITIAL_SPEED_def)
  next
    case emptied
    with assms(2,4) show ?thesis by simp
  next
    case (plain currentHead rest)
    with assms(2-6) show ?thesis by (auto dest: in_set_butlastD)
  next
    case (grow currentHead rest)
    with assms(2-6) show ?thesis
      by (auto simp: MIN_SPEED_def INITIAL_SPEED_def SPEED_DECREMENT_def)
  qed
  with c show ?thesis by simp
qed

lemma boot_invariant:
  assumes "boot stored rnd = Some (s, rnd')"
  shows "snakeRef s = snake s \<and> directionRef s = direction s \<and>
         (\<forall>p \<in> set (snake s). \<not> wallCollision p) \<and> 3 \<le> length (snake s) \<and>
         MIN_SPEED \<le> speed s \<and> speed s \<le> INITIAL_SPEED"
proof -
  from assms obtain s1 where m: "mount stored initialApp rnd = Some (s1, rnd')"
    and c: "s = commit s1"
    by (auto simp: boot_def split: option.splits)
  from m have "snake s1 = INITIAL_SNAKE \<and> speed s1 = INITIAL_SPEED"
    by (auto simp: mount_def initialApp_def Let_def split: option.splits if_splits)
  with c INITIAL_SNAKE_good show ?thesis
    by (simp add: MIN_SPEED_def INITIAL_SPEED_def)
qed

lemma reachable_invariant:
  assumes "reachable s"
  shows "snakeRef s = snake s \<and> directionRef s = direction s \<and>
         (\<forall>p \<in> set (snake s). \<not> wallCollision p) \<and> 3 \<le> length (snake s) \<and>
         MIN_SPEED \<le> speed s \<and> speed s \<le> INITIAL_SPEED"
  using assms
proof (induction rule: reachable.induct)
  case (reachable_boot stored rnd s rnd')
  then show ?case by (rule boot_invariant)
next
  case (reachable_step s e rnd s' rnd')
  then show ?case by (intro step_invariant[of e s rnd s' rnd']) simp_all
qed

lemma reachable_committed:
  "reachable s \<Longrightarrow> snakeRef s = snake s \<and> directionRef s = direction s"
  by (drule reachable_invariant) simp

text \<open>A concrete run: startup, the up arrow, one tick.\<close>

lemma getRandomPosition_seed_34:
  "getRandomPosition INITIAL_SNAKE (sconst \<lparr>x = 3, y = 4\<rparr>) =
     Some (\<lparr>x = 3, y = 4\<rparr>, sconst \<lparr>x = 3, y = 4\<rparr>)"
proof -
  have "\<not> onSnake INITIAL_SNAKE (shd (sconst \<lparr>x = 3, y = 4\<rparr>))"
    by (simp add: onSnake_iff INITIAL_SNAKE_def)
  from getRandomPosition_hit[OF this] show ?thesis by simp
qed

lemma boot_34:
  "boot None (sconst \<lparr>x = 3, y = 4\<rparr>) =
     Some (initialApp\<lparr>food := \<lparr>x = 3, y = 4\<rparr>\<rparr>, sconst \<lparr>x = 3, y = 4\<rparr>)"
  by (simp add: boot_def mount_def getRandomPosition_seed_34 commit_def Let_def initialApp_def)

lemma arrow_up_34:
  "step (KeyDown ''ArrowUp'' ''ArrowUp'') (initialApp\<lparr>food := \<lparr>x = 3, y = 4\<rparr>\<rparr>) rnd =
     Some (initialApp\<lparr>food := \<lparr>x = 3, y = 4\<rparr>, status := PLAYING\<rparr>, rnd)"
  by (simp add: step_def handle_def handleKeyDown_def KEY_MAP_def handleDirection_def
      commit_def Let_def initialApp_def INITIAL_DIRECTION_def)

lemma tick_34:
  "step Tick (initialApp\<lparr>food := \<lparr>x = 3, y = 4\<rparr>, status := PLAYING\<rparr>) rnd =
     Some (firstTick, rnd)"
proof -
  let ?s = "initialApp\<lparr>food := \<lparr>x = 3, y = 4\<rparr>, status := PLAYING\<rparr>"
  have "moveSnake ?s rnd =
     Some (?s\<lparr>lastProcessedDirectionRef := UP,
             snake := [\<lparr>x = 10, y = 9\<rparr>, \<lparr>x = 10, y = 10\<rparr>, \<lparr>x = 10, y = 11\<rparr>]\<rparr>, rnd)"
    by (rule moveSnake_seed_up)
      (simp_all add: initialApp_def INITIAL_SNAKE_def INITIAL_DIRECTION_def)
  then show ?thesis
    by (simp add: step_def handle_def commit_def Let_def initialApp_def firstTick_def
        INITIAL_DIRECTION_def INITIAL_SPEED_def)
qed

lemma firstTick_reachable: "reachable firstTick"
proof -
  have "reachable (initialApp\<lparr>food := \<lparr>x = 3, y = 4\<rparr>\<rparr>)"
    using boot_34 by (rule reachable_boot)
  then have "reachable (initialApp\<lparr>food := \<lparr>x = 3, y = 4\<rparr>, status := PLAYING\<rparr>)"
    using arrow_up_34 by (rule reachable_step)
  then show ?thesis using tick_34 by (rule reachable_step)
qed

text \<open>Speed along a run.\<close>

lemma step_speed:
  assumes "reachable s" and "step e s rnd = Some (s', rnd')" and "\<not> startsGame e s"
  shows "if e = Tick \<and> length (snake s') = length (snake s) + 1
         then speed s' = max MIN_SPEED (speed s - SPEED_DECREMENT)
         else speed s' = speed s"
proof -
  from assms(2) obtain s1 where h: "handle e s rnd = Some (s1, rnd')" and c: "s' = commit s1"
    by (rule step_handle)
  from reachable_invariant[OF assms(1)]
  have r: "snakeRef s = snake s" and l: "3 \<le> length (snake s)" by simp_all
  from h show ?thesis
  proof (cases rule: handle_cases)
    case still
    with c show ?thesis by simp
  next
    case restart
    with assms(3) show ?thesis by simp
  next
    case emptied
    with r l show ?thesis by simp
  next
    case (plain currentHead rest)
    with c r have "snake s' = offsetHead (directionRef s) currentHead # butlast (snake s)"
      by simp
    then have "length (snake s') = length (snake s)" using l by simp
    with plain c show ?thesis by simp
  next
    case (grow currentHead rest)
    with c r have "snake s' = offsetHead (directionRef s) currentHead # snake s"
      by simp
    then have "length (snake s') = length (snake s) + 1" by simp
    with grow c show ?thesis by simp
  qed
qed

lemma step_speed_le:
  assumes "reachable s" and "step e s rnd = Some (s', rnd')" and "\<not> startsGame e s"
  shows "speed s' \<le> speed s"
proof -
  from reachable_invariant[OF assms(1)] have "MIN_SPEED \<le> speed s" by simp
  with step_speed[OF assms] show ?thesis
    by (auto simp: SPEED_DECREMENT_def split: if_splits)
qed

lemma play_speed:
  assumes "reachable s" and "sameGame es s rnd" and "play es s rnd = Some (s', rnd')"
  shows "reachable s' \<and> speed s' \<le> speed s"
  using assms
proof (induction es arbitrary: s rnd)
  case Nil
  then show ?case by simp
next
  case (Cons e es)
  from Cons.prems(3) obtain s1 rnd1 where st: "step e s rnd = Some (s1, rnd1)"
    and pl: "play es s1 rnd1 = Some (s', rnd')"
    by (auto split: option.splits)
  from Cons.prems(2) st have ns: "\<not> startsGame e s" and sg: "sameGame es s1 rnd1"
    by simp_all
  from Cons.prems(1) st have r1: "reachable s1" by (rule reachable_step)
  from Cons.IH[OF r1 sg pl] step_speed_le[OF Cons.prems(1) st ns]
  show ?case by simp
qed

lemma boot_speed:
  assumes "boot stored rnd = Some (s, rnd')"
  shows "speed s = INITIAL_SPEED"
proof -
  from assms obtain s1 where m: "mount stored initialApp rnd = Some (s1, rnd')"
    and c: "s = commit s1"
    by (auto simp: boot_def split: option.splits)
  from m have "speed s1 = INITIAL_SPEED"
    by (auto simp: mount_def initialApp_def Let_def split: option.splits if_splits)
  with c show ?thesis by simp
qed

lemma moveSnake_idle:
  assumes "moveSnake s rnd = Some (s', rnd')" and "status s' = IDLE"
  shows "status s = IDLE \<and> speed s' = speed s"
proof (cases "status s = PLAYING")
  case False
  with assms show ?thesis by (simp add: moveSnake_not_playing)
next
  case True
  show ?thesis
  proof (cases "snakeRef s")
    case Nil
    with True assms show ?thesis by (auto simp: moveSnake_def)
  next
    case (Cons currentHead rest)
    let ?n = "offsetHead (directionRef s) currentHead"
    show ?thesis
    proof (cases "wallCollision ?n \<or> selfCollision (snakeRef s) ?n")
      case c: True
      then have "moveSnake s rnd =
           Some (s\<lparr>lastProcessedDirectionRef := directionRef s, status := GAME_OVER\<rparr>, rnd)"
        using moveSnake_wall[OF True Cons, of rnd] moveSnake_self[OF True Cons, of rnd]
        by blast
      with assms show ?thesis by auto
    next
      case c: False
      then have "status s' = PLAYING"
        using moveSnake_no_collision_status[OF True Cons _ _ assms(1)] by blast
      with assms(2) show ?thesis by simp
    qed
  qed
qed

lemma handle_idle:
  assumes "handle e s rnd = Some (s', rnd')" and "status s' = IDLE"
  shows "status s = IDLE \<and> speed s' = speed s"
proof (cases e)
  case (KeyDown key code)
  with assms(1) have k: "handleKeyDown key code s rnd = Some (s', rnd')"
    by (simp add: handle_def)
  show ?thesis
  proof (cases "code = ''Space'' \<and> (status s = GAME_OVER \<or> status s = IDLE)")
    case True
    with k obtain s1 where "startGame s1 rnd = Some (s', rnd')"
      by (auto simp: handleKeyDown_def Let_def)
    from startGame_fields(3)[OF this] assms(2) show ?thesis by simp
  next
    case False
    with k assms(2) show ?thesis
      by (auto simp: handleKeyDown_def Let_def handleDirection_def
          split: if_splits option.splits)
  qed
next
  case (DPad d)
  with assms show ?thesis by (auto simp: handle_def handleDirection_def split: if_splits)
next
  case StartButton
  show ?thesis
  proof (cases "status s = IDLE \<or> status s = GAME_OVER")
    case True
    with StartButton assms(1) have "startGame s rnd = Some (s', rnd')"
      by (simp add: handle_def)
    from startGame_fields(3)[OF this] assms(2) show ?thesis by simp
  next
    case False
    with StartButton assms show ?thesis by (simp add: handle_def)
  qed
next
  case Tick
  with assms(1) have "moveSnake s rnd = Some (s', rnd')" by (simp add: handle_def)
  from moveSnake_idle[OF this assms(2)] show ?thesis .
qed

lemma reachable_idle_speed:
  assumes "reachable s" and "status s = IDLE"
  shows "speed s = INITIAL_SPEED"
  using assms
proof (induction rule: reachable.induct)
  case (reachable_boot stored rnd s rnd')
  then show ?case by (simp add: boot_speed)
next
  case (reachable_step s e rnd s' rnd')
  from reachable_step.hyps(2) obtain s1 where h: "handle e s rnd = Some (s1, rnd')"
    and c: "s' = commit s1" by (rule step_handle)
  from c reachable_step.prems have "status s1 = IDLE" by simp
  from handle_idle[OF h this] reachable_step.IH c show ?case by simp
qed

text \<open>A concrete run with a meal: startup, the up arrow, one tick onto the food.\<close>

lemma foodAhead_boot:
  "boot None (\<lparr>x = 10, y = 9\<rparr> ## sconst \<lparr>x = 3, y = 4\<rparr>) =
     Some (foodAhead, sconst \<lparr>x = 3, y = 4\<rparr>)"
proof -
  have "\<not> onSnake INITIAL_SNAKE (shd (\<lparr>x = 10, y = 9\<rparr> ## sconst \<lparr>x = 3, y = 4\<rparr>))"
    by (simp add: onSnake_iff INITIAL_SNAKE_def)
  from getRandomPosition_hit[OF this]
  have "getRandomPosition INITIAL_SNAKE (\<lparr>x = 10, y = 9\<rparr> ## sconst \<lparr>x = 3, y = 4\<rparr>) =
      Some (\<lparr>x = 10, y = 9\<rparr>, sconst \<lparr>x = 3, y = 4\<rparr>)" by simp
  then show ?thesis
    by (simp add: boot_def mount_def commit_def Let_def initialApp_def foodAhead_def)
qed

lemma foodAhead_reachable: "reachable foodAhead"
  using foodAhead_boot by (rule reachable_boot)

lemma foodAhead_arrow_up:
  "step (KeyDown ''ArrowUp'' ''ArrowUp'') foodAhead rnd =
     Some (foodAhead\<lparr>status := PLAYING\<rparr>, rnd)"
  by (simp add: step_def handle_def handleKeyDown_def KEY_MAP_def handleDirection_def
      commit_def Let_def initialApp_def INITIAL_DIRECTION_def foodAhead_def)

lemma foodAhead_tick:
  "step Tick (foodAhead\<lparr>status := PLAYING\<rparr>) (sconst \<lparr>x = 3, y = 4\<rparr>) =
     Some (firstMeal, sconst \<lparr>x = 3, y = 4\<rparr>)"
proof -
  let ?s = "foodAhead\<lparr>status := PLAYING\<rparr>"
  have f: "status ?s = PLAYING"
    "snakeRef ?s = \<lparr>x = 10, y = 10\<rparr> # [\<lparr>x = 10, y = 11\<rparr>, \<lparr>x = 10, y = 12\<rparr>]"
    "directionRef ?s = UP" "food ?s = \<lparr>x = 10, y = 9\<rparr>"
    by (simp_all add: foodAhead_def initialApp_def INITIAL_SNAKE_def INITIAL_DIRECTION_def)
  have o: "offsetHead (directionRef ?s) \<lparr>x = 10, y = 10\<rparr> = food ?s"
    unfolding f by (simp add: offsetHead_def)
  have w: "\<not> wallCollision (offsetHead (directionRef ?s) \<lparr>x = 10, y = 10\<rparr>)"
    unfolding o by (simp add: f wallCollision_def GRID_SIZE_def)
  have c: "\<not> selfCollision (snakeRef ?s) (offsetHead (directionRef ?s) \<lparr>x = 10, y = 10\<rparr>)"
    unfolding o selfCollision_iff by (simp add: f)
  have "\<not> onSnake (food ?s # snakeRef ?s) (shd (sconst \<lparr>x = 3, y = 4\<rparr>))"
    unfolding f onSnake_iff by simp
  from getRandomPosition_hit[OF this]
  have g: "getRandomPosition (food ?s # snakeRef ?s) (sconst \<lparr>x = 3, y = 4\<rparr>) =
      Some (\<lparr>x = 3, y = 4\<rparr>, sconst \<lparr>x = 3, y = 4\<rparr>)" by simp
  have "moveSnake ?s (sconst \<lparr>x = 3, y = 4\<rparr>) =
      Some (?s\<lparr>lastProcessedDirectionRef := directionRef ?s,
                        score := score ?s + 10,
                        speed := max MIN_SPEED (speed ?s - SPEED_DECREMENT),
                        food := \<lparr>x = 3, y = 4\<rparr>,
                        snake := food ?s # snakeRef ?s\<rparr>, sconst \<lparr>x = 3, y = 4\<rparr>)"
    unfolding moveSnake_eat[OF f(1) f(2) w c o] g by simp
  then show ?thesis
    by (simp add: step_def handle_def commit_def Let_def initialApp_def firstMeal_def
        foodAhead_def INITIAL_DIRECTION_def INITIAL_SPEED_def INITIAL_SNAKE_def
        MIN_SPEED_def SPEED_DECREMENT_def)
qed

lemma foodAhead_play:
  "play [KeyDown ''ArrowUp'' ''ArrowUp'', Tick] foodAhead (sconst \<lparr>x = 3, y = 4\<rparr>) =
     Some (firstMeal, sconst \<lparr>x = 3, y = 4\<rparr>)"
  by (simp add: foodAhead_arrow_up foodAhead_tick)

lemma foodAhead_sameGame:
  "sameGame [KeyDown ''ArrowUp'' ''ArrowUp'', Tick] foodAhead (sconst \<lparr>x = 3, y = 4\<rparr>)"
  by (simp add: foodAhead_arrow_up foodAhead_tick startsGame_def)

text \<open>\<open>parseInt\<close> on two stored values.\<close>

lemma parseInt10_abc: "parseInt10 ''abc'' = NaN"
  by (simp add: parseInt10_def isWhiteSpace_def isDigit_def Let_def)

lemma parseInt10_42: "parseInt10 ''42'' = Num 42"
  by (simp add: parseInt10_def isWhiteSpace_def isDigit_def Let_def digitsValue_def)

section \<open>Direction requests\<close>

text \<open>
  Claim C5. A direction request (\<open>handleDirection\<close>, reached from the direction
  pad and from a mapped key) sets the buffered direction \<open>direction\<close> to the
  requested one when the requested direction is not the opposite of the direction
  the last tick applied (\<open>lastProcessedDirectionRef\<close>), and leaves it as it is
  otherwise. With \<open>UP\<close> last applied, a request for \<open>DOWN\<close> changes nothing at
  all. After the render that follows a press on the direction pad, \<open>directionRef\<close>
  holds the same buffered direction.
\<close>

theorem handleDirection_buffers_legal_turn:
  "direction (handleDirection requested s) =
     (if \<not> isOppositeDirection requested (lastProcessedDirectionRef s) then requested
      else direction s)
   \<and> (lastProcessedDirectionRef s = UP \<longrightarrow> handleDirection DOWN s = s)
   \<and> (\<exists>s'. step (DPad requested) s rnd = Some (s', rnd) \<and>
         direction s' = (if \<not> isOppositeDirection requested (lastProcessedDirectionRef s)
                         then requested else direction s) \<and>
         directionRef s' = direction s')"
  by (simp add: handleDirection_def step_def handle_def commit_def Let_def)

theorem handleDirection_buffers_legal_turn_witness:
  "lastProcessedDirectionRef initialApp = UP
   \<and> direction (handleDirection DOWN initialApp) = UP
   \<and> handleDirection DOWN initialApp = initialApp
   \<and> direction (handleDirection LEFT initialApp) = LEFT"
  using handleDirection_buffers_legal_turn [of DOWN initialApp]
    handleDirection_buffers_legal_turn [of LEFT initialApp]
  by (simp add: initialApp_def INITIAL_DIRECTION_def)

section \<open>The tick\<close>

text \<open>
  The tick reads the snake and the direction from \<open>snakeRef\<close> and
  \<open>directionRef\<close>, the copies of \<open>snake\<close> and \<open>direction\<close> made after every
  render; in every reachable state they are equal to \<open>snake\<close> and \<open>direction\<close>
  (\<open>reachable_committed\<close>). The theorems about one tick are stated for any
  state, in terms of what the tick reads.
\<close>

text \<open>
  Claim C2. In a \<open>PLAYING\<close> state whose new head (the head offset one cell along
  the applied direction) is inside the grid, is not the food cell and is not equal
  to any segment other than the last one, the tick returns, and the new snake is
  the new head followed by the old snake without its last segment, so the length
  is unchanged; status, food, score and speed are unchanged. In particular, from
  the snake (10,10), (10,11), (10,12) with direction \<open>UP\<close> and food not at (10,9)
  the tick yields the snake (10,9), (10,10), (10,11).
\<close>

theorem moveSnake_plain_move:
  assumes "status s = PLAYING"
    and "snakeRef s = currentHead # rest"
    and "newHead = offsetHead (directionRef s) currentHead"
    and "0 \<le> x newHead \<and> x newHead < GRID_SIZE \<and> 0 \<le> y newHead \<and> y newHead < GRID_SIZE"
    and "newHead \<noteq> food s"
    and "\<forall>i. i < length (snakeRef s) - 1 \<longrightarrow> snakeRef s ! i \<noteq> newHead"
  shows "(\<exists>s'. moveSnake s rnd = Some (s', rnd) \<and>
              snake s' = newHead # butlast (snakeRef s) \<and>
              length (snake s') = length (snakeRef s) \<and>
              status s' = PLAYING \<and> food s' = food s \<and> score s' = score s \<and>
              speed s' = speed s)
   \<and> (\<forall>t::App. status t = PLAYING \<and>
        snakeRef t = [\<lparr>x = 10, y = 10\<rparr>, \<lparr>x = 10, y = 11\<rparr>, \<lparr>x = 10, y = 12\<rparr>] \<and>
        directionRef t = UP \<and> food t \<noteq> \<lparr>x = 10, y = 9\<rparr>
        \<longrightarrow> (\<exists>t'. moveSnake t rnd = Some (t', rnd) \<and>
                  snake t' = [\<lparr>x = 10, y = 9\<rparr>, \<lparr>x = 10, y = 10\<rparr>, \<lparr>x = 10, y = 11\<rparr>]))"
proof (intro conjI allI impI)
  have w: "\<not> wallCollision (offsetHead (directionRef s) currentHead)"
    using assms(3,4) by (auto simp: wallCollision_def)
  have c: "\<not> selfCollision (snakeRef s) (offsetHead (directionRef s) currentHead)"
    unfolding selfCollision_nth using assms(3,6) by blast
  have f: "offsetHead (directionRef s) currentHead \<noteq> food s"
    using assms(3,5) by simp
  have "moveSnake s rnd =
      Some (s\<lparr>lastProcessedDirectionRef := directionRef s,
              snake := newHead # butlast (snakeRef s)\<rparr>, rnd)"
    using moveSnake_plain[OF assms(1,2) w c f, of rnd] assms(3) by simp
  then show "\<exists>s'. moveSnake s rnd = Some (s', rnd) \<and>
              snake s' = newHead # butlast (snakeRef s) \<and>
              length (snake s') = length (snakeRef s) \<and>
              status s' = PLAYING \<and> food s' = food s \<and> score s' = score s \<and>
              speed s' = speed s"
    using assms(1,2) by simp
next
  fix t :: App
  assume b: "status t = PLAYING \<and>
        snakeRef t = [\<lparr>x = 10, y = 10\<rparr>, \<lparr>x = 10, y = 11\<rparr>, \<lparr>x = 10, y = 12\<rparr>] \<and>
        directionRef t = UP \<and> food t \<noteq> \<lparr>x = 10, y = 9\<rparr>"
  then show "\<exists>t'. moveSnake t rnd = Some (t', rnd) \<and>
                  snake t' = [\<lparr>x = 10, y = 9\<rparr>, \<lparr>x = 10, y = 10\<rparr>, \<lparr>x = 10, y = 11\<rparr>]"
    using moveSnake_seed_up[of t rnd] by simp
qed

theorem moveSnake_plain_move_witness:
  "\<exists>s'. moveSnake playingSeed (sconst \<lparr>x = 0, y = 0\<rparr>) = Some (s', sconst \<lparr>x = 0, y = 0\<rparr>) \<and>
         snake s' = [\<lparr>x = 10, y = 9\<rparr>, \<lparr>x = 10, y = 10\<rparr>, \<lparr>x = 10, y = 11\<rparr>] \<and>
         length (snake s') = 3"
proof -
  have nh: "\<lparr>x = 10, y = 9\<rparr> = offsetHead (directionRef playingSeed) \<lparr>x = 10, y = 10\<rparr>"
    by (simp add: playingSeed_fields offsetHead_def)
  have b: "0 \<le> x \<lparr>x = 10, y = 9\<rparr> \<and> x \<lparr>x = 10, y = 9\<rparr> < GRID_SIZE \<and>
           0 \<le> y \<lparr>x = 10, y = 9\<rparr> \<and> y \<lparr>x = 10, y = 9\<rparr> < GRID_SIZE"
    by (simp add: GRID_SIZE_def)
  have nf: "\<lparr>x = 10, y = 9\<rparr> \<noteq> food playingSeed"
    by (simp add: playingSeed_fields)
  have nc: "\<forall>i. i < length (snakeRef playingSeed) - 1 \<longrightarrow>
        snakeRef playingSeed ! i \<noteq> \<lparr>x = 10, y = 9\<rparr>"
    by (auto simp: playingSeed_fields less_Suc_eq)
  have "\<exists>s'. moveSnake playingSeed (sconst \<lparr>x = 0, y = 0\<rparr>) = Some (s', sconst \<lparr>x = 0, y = 0\<rparr>) \<and>
              snake s' = \<lparr>x = 10, y = 9\<rparr> # butlast (snakeRef playingSeed) \<and>
              length (snake s') = length (snakeRef playingSeed) \<and>
              status s' = PLAYING \<and> food s' = food playingSeed \<and> score s' = score playingSeed \<and>
              speed s' = speed playingSeed"
    using moveSnake_plain_move [OF playingSeed_fields(1) playingSeed_fields(2) nh b nf nc]
    by (rule conjunct1)
  then show ?thesis by (auto simp: playingSeed_fields)
qed

text \<open>
  Claim C3. In a \<open>PLAYING\<close> state whose new head lies outside the grid
  (\<open>x < 0\<close>, \<open>x \<ge> GRID_SIZE\<close>, \<open>y < 0\<close> or \<open>y \<ge> GRID_SIZE\<close>) the tick sets
  the status to \<open>GAME_OVER\<close> and leaves snake, food, direction, score, speed and
  high score as they were; the only other cell it writes is the record of the
  applied direction, \<open>lastProcessedDirectionRef\<close>, which is not one of the fields
  the claim lists. In particular a head at (0,5) with direction \<open>LEFT\<close> gives the
  new head (-1,5) and \<open>GAME_OVER\<close>.
\<close>

theorem moveSnake_wall_game_over:
  assumes "status s = PLAYING"
    and "snakeRef s = currentHead # rest"
    and "newHead = offsetHead (directionRef s) currentHead"
    and "x newHead < 0 \<or> x newHead \<ge> GRID_SIZE \<or> y newHead < 0 \<or> y newHead \<ge> GRID_SIZE"
  shows "moveSnake s rnd =
           Some (s\<lparr>lastProcessedDirectionRef := directionRef s, status := GAME_OVER\<rparr>, rnd)
   \<and> (\<exists>s'. moveSnake s rnd = Some (s', rnd) \<and> status s' = GAME_OVER \<and>
           snake s' = snake s \<and> food s' = food s \<and> direction s' = direction s \<and>
           score s' = score s \<and> speed s' = speed s \<and> highScore s' = highScore s \<and>
           snakeRef s' = snakeRef s \<and> directionRef s' = directionRef s)
   \<and> (\<forall>t::App. \<forall>r. status t = PLAYING \<and> snakeRef t = \<lparr>x = 0, y = 5\<rparr> # r \<and>
          directionRef t = LEFT
          \<longrightarrow> offsetHead (directionRef t) \<lparr>x = 0, y = 5\<rparr> = \<lparr>x = - 1, y = 5\<rparr> \<and>
              (\<exists>t'. moveSnake t rnd = Some (t', rnd) \<and> status t' = GAME_OVER))"
proof (intro conjI allI impI)
  have w: "wallCollision (offsetHead (directionRef s) currentHead)"
    using assms(3,4) by (auto simp: wallCollision_def)
  show m: "moveSnake s rnd =
           Some (s\<lparr>lastProcessedDirectionRef := directionRef s, status := GAME_OVER\<rparr>, rnd)"
    by (rule moveSnake_wall[OF assms(1,2) w])
  show "\<exists>s'. moveSnake s rnd = Some (s', rnd) \<and> status s' = GAME_OVER \<and>
           snake s' = snake s \<and> food s' = food s \<and> direction s' = direction s \<and>
           score s' = score s \<and> speed s' = speed s \<and> highScore s' = highScore s \<and>
           snakeRef s' = snakeRef s \<and> directionRef s' = directionRef s"
    unfolding m by simp
next
  fix t :: App and r
  assume a: "status t = PLAYING \<and> snakeRef t = \<lparr>x = 0, y = 5\<rparr> # r \<and> directionRef t = LEFT"
  then show "offsetHead (directionRef t) \<lparr>x = 0, y = 5\<rparr> = \<lparr>x = - 1, y = 5\<rparr>"
    by (simp add: offsetHead_def)
  then have "wallCollision (offsetHead (directionRef t) \<lparr>x = 0, y = 5\<rparr>)"
    by (simp add: wallCollision_def)
  from moveSnake_wall[OF _ _ this, of r rnd] a
  show "\<exists>t'. moveSnake t rnd = Some (t', rnd) \<and> status t' = GAME_OVER"
    by simp
qed

theorem moveSnake_wall_game_over_witness:
  "\<exists>s'. moveSnake leftEdge (sconst \<lparr>x = 0, y = 0\<rparr>) = Some (s', sconst \<lparr>x = 0, y = 0\<rparr>) \<and>
     status s' = GAME_OVER \<and>
     snake s' = [\<lparr>x = 0, y = 5\<rparr>, \<lparr>x = 1, y = 5\<rparr>, \<lparr>x = 2, y = 5\<rparr>] \<and>
     food s' = \<lparr>x = 15, y = 15\<rparr> \<and> direction s' = LEFT \<and> score s' = 0 \<and> speed s' = 150 \<and>
     highScore s' = Num 0"
proof -
  have nh: "\<lparr>x = - 1, y = 5\<rparr> = offsetHead (directionRef leftEdge) \<lparr>x = 0, y = 5\<rparr>"
    by (simp add: leftEdge_fields offsetHead_def)
  have out: "x \<lparr>x = - 1, y = 5\<rparr> < 0 \<or> x \<lparr>x = - 1, y = 5\<rparr> \<ge> GRID_SIZE \<or>
             y \<lparr>x = - 1, y = 5\<rparr> < 0 \<or> y \<lparr>x = - 1, y = 5\<rparr> \<ge> GRID_SIZE"
    by simp
  have "moveSnake leftEdge (sconst \<lparr>x = 0, y = 0\<rparr>) =
      Some (leftEdge\<lparr>lastProcessedDirectionRef := directionRef leftEdge, status := GAME_OVER\<rparr>,
            sconst \<lparr>x = 0, y = 0\<rparr>)"
    using moveSnake_wall_game_over [OF leftEdge_fields(1) leftEdge_fields(2) nh out]
    by (rule conjunct1)
  then show ?thesis by (simp add: leftEdge_fields)
qed

text \<open>
  Claim C4. In a \<open>PLAYING\<close> state whose new head is inside the grid, the tick
  returns with status \<open>GAME_OVER\<close> exactly when the new head equals a segment of
  the current snake at an index other than the last. A new head that equals the
  last segment and no other is not a collision: on a move that does not eat the
  tick returns in \<open>PLAYING\<close> with the head on that cell, and on a move that eats
  (the food is on that cell too) it returns in \<open>PLAYING\<close> with the grown snake as
  soon as the random draws contain a cell off the grown snake.
\<close>

theorem moveSnake_self_collision_iff:
  assumes "status s = PLAYING"
    and "snakeRef s = currentHead # rest"
    and "newHead = offsetHead (directionRef s) currentHead"
    and "0 \<le> x newHead \<and> x newHead < GRID_SIZE \<and> 0 \<le> y newHead \<and> y newHead < GRID_SIZE"
  shows "((\<exists>s' rnd'. moveSnake s rnd = Some (s', rnd') \<and> status s' = GAME_OVER)
           \<longleftrightarrow> (\<exists>i. i < length (snakeRef s) - 1 \<and> snakeRef s ! i = newHead))
   \<and> ((\<forall>i. i < length (snakeRef s) - 1 \<longrightarrow> snakeRef s ! i \<noteq> newHead) \<and>
        newHead = last (snakeRef s) \<and> newHead \<noteq> food s
        \<longrightarrow> (\<exists>s'. moveSnake s rnd = Some (s', rnd) \<and> status s' = PLAYING \<and>
                  snake s' = newHead # butlast (snakeRef s)))
   \<and> ((\<forall>i. i < length (snakeRef s) - 1 \<longrightarrow> snakeRef s ! i \<noteq> newHead) \<and>
        newHead = last (snakeRef s) \<and> newHead = food s \<and>
        (\<exists>n. rnd !! n \<notin> set (newHead # snakeRef s))
        \<longrightarrow> (\<exists>s' rnd'. moveSnake s rnd = Some (s', rnd') \<and> status s' = PLAYING \<and>
                  snake s' = newHead # snakeRef s))"
proof -
  have w: "\<not> wallCollision (offsetHead (directionRef s) currentHead)"
    using assms(3,4) by (auto simp: wallCollision_def)
  have c: "selfCollision (snakeRef s) (offsetHead (directionRef s) currentHead)
            \<longleftrightarrow> (\<exists>i. i < length (snakeRef s) - 1 \<and> snakeRef s ! i = newHead)"
    unfolding selfCollision_nth assms(3) ..
  have 1: "(\<exists>s' rnd'. moveSnake s rnd = Some (s', rnd') \<and> status s' = GAME_OVER)
           \<longleftrightarrow> (\<exists>i. i < length (snakeRef s) - 1 \<and> snakeRef s ! i = newHead)"
  proof
    assume "\<exists>s' rnd'. moveSnake s rnd = Some (s', rnd') \<and> status s' = GAME_OVER"
    then obtain s' rnd' where m: "moveSnake s rnd = Some (s', rnd')" and g: "status s' = GAME_OVER"
      by blast
    have "selfCollision (snakeRef s) (offsetHead (directionRef s) currentHead)"
    proof (rule ccontr)
      assume n: "\<not> selfCollision (snakeRef s) (offsetHead (directionRef s) currentHead)"
      from moveSnake_no_collision_status[OF assms(1,2) w n m] g show False by simp
    qed
    with c show "\<exists>i. i < length (snakeRef s) - 1 \<and> snakeRef s ! i = newHead" by simp
  next
    assume "\<exists>i. i < length (snakeRef s) - 1 \<and> snakeRef s ! i = newHead"
    with c have "selfCollision (snakeRef s) (offsetHead (directionRef s) currentHead)" by simp
    from moveSnake_self[OF assms(1,2) w this, of rnd]
    show "\<exists>s' rnd'. moveSnake s rnd = Some (s', rnd') \<and> status s' = GAME_OVER" by simp
  qed
  have 2: "(\<forall>i. i < length (snakeRef s) - 1 \<longrightarrow> snakeRef s ! i \<noteq> newHead) \<and>
        newHead = last (snakeRef s) \<and> newHead \<noteq> food s
        \<longrightarrow> (\<exists>s'. moveSnake s rnd = Some (s', rnd) \<and> status s' = PLAYING \<and>
                  snake s' = newHead # butlast (snakeRef s))"
  proof
    assume a: "(\<forall>i. i < length (snakeRef s) - 1 \<longrightarrow> snakeRef s ! i \<noteq> newHead) \<and>
        newHead = last (snakeRef s) \<and> newHead \<noteq> food s"
    with c have n: "\<not> selfCollision (snakeRef s) (offsetHead (directionRef s) currentHead)"
      by blast
    from a have "newHead \<noteq> food s" by (elim conjE)
    then have f: "offsetHead (directionRef s) currentHead \<noteq> food s" unfolding assms(3) .
    from moveSnake_plain[OF assms(1,2) w n f, of rnd] assms(1,3)
    show "\<exists>s'. moveSnake s rnd = Some (s', rnd) \<and> status s' = PLAYING \<and>
                  snake s' = newHead # butlast (snakeRef s)" by simp
  qed
  have 3: "(\<forall>i. i < length (snakeRef s) - 1 \<longrightarrow> snakeRef s ! i \<noteq> newHead) \<and>
        newHead = last (snakeRef s) \<and> newHead = food s \<and>
        (\<exists>n. rnd !! n \<notin> set (newHead # snakeRef s))
        \<longrightarrow> (\<exists>s' rnd'. moveSnake s rnd = Some (s', rnd') \<and> status s' = PLAYING \<and>
                  snake s' = newHead # snakeRef s)"
  proof
    assume a: "(\<forall>i. i < length (snakeRef s) - 1 \<longrightarrow> snakeRef s ! i \<noteq> newHead) \<and>
        newHead = last (snakeRef s) \<and> newHead = food s \<and>
        (\<exists>n. rnd !! n \<notin> set (newHead # snakeRef s))"
    with c have n: "\<not> selfCollision (snakeRef s) (offsetHead (directionRef s) currentHead)"
      by blast
    from a have nf: "newHead = food s" by (elim conjE)
    then have f: "offsetHead (directionRef s) currentHead = food s" unfolding assms(3) .
    from a have "\<exists>n. rnd !! n \<notin> set (newHead # snakeRef s)" by (elim conjE)
    then obtain k where "rnd !! k \<notin> set (newHead # snakeRef s)" ..
    then have "rnd !! k \<notin> set (food s # snakeRef s)" unfolding nf .
    from moveSnake_eat_returns[OF assms(1,2) w n f this] obtain p rnd' where
      "moveSnake s rnd =
            Some (s\<lparr>lastProcessedDirectionRef := directionRef s,
                    score := score s + 10,
                    speed := max MIN_SPEED (speed s - SPEED_DECREMENT),
                    food := p,
                    snake := food s # snakeRef s\<rparr>, rnd')" by blast
    with assms(1)
    show "\<exists>s' rnd'. moveSnake s rnd = Some (s', rnd') \<and> status s' = PLAYING \<and>
                  snake s' = newHead # snakeRef s" unfolding nf by simp
  qed
  from 1 2 3 show ?thesis by (intro conjI)
qed

theorem moveSnake_self_collision_iff_witness:
  "last (snakeRef tailChase) = \<lparr>x = 6, y = 5\<rparr> \<and> food tailChase = \<lparr>x = 6, y = 5\<rparr> \<and>
   offsetHead (directionRef tailChase) (hd (snakeRef tailChase)) = \<lparr>x = 6, y = 5\<rparr> \<and>
   (\<exists>s' rnd'. moveSnake tailChase (sconst \<lparr>x = 0, y = 0\<rparr>) = Some (s', rnd') \<and>
       status s' = PLAYING \<and>
       snake s' = [\<lparr>x = 6, y = 5\<rparr>, \<lparr>x = 5, y = 5\<rparr>, \<lparr>x = 5, y = 6\<rparr>, \<lparr>x = 6, y = 6\<rparr>,
                   \<lparr>x = 6, y = 5\<rparr>])"
proof (intro conjI)
  show l: "last (snakeRef tailChase) = \<lparr>x = 6, y = 5\<rparr>"
    by (simp add: tailChase_fields)
  show f: "food tailChase = \<lparr>x = 6, y = 5\<rparr>"
    by (simp add: tailChase_fields)
  show o: "offsetHead (directionRef tailChase) (hd (snakeRef tailChase)) = \<lparr>x = 6, y = 5\<rparr>"
    by (simp add: tailChase_fields offsetHead_def)
  have nh: "\<lparr>x = 6, y = 5\<rparr> = offsetHead (directionRef tailChase) \<lparr>x = 5, y = 5\<rparr>"
    by (simp add: tailChase_fields offsetHead_def)
  have b: "0 \<le> x \<lparr>x = 6, y = 5\<rparr> \<and> x \<lparr>x = 6, y = 5\<rparr> < GRID_SIZE \<and>
           0 \<le> y \<lparr>x = 6, y = 5\<rparr> \<and> y \<lparr>x = 6, y = 5\<rparr> < GRID_SIZE"
    by (simp add: GRID_SIZE_def)
  have nc: "\<forall>i. i < length (snakeRef tailChase) - 1 \<longrightarrow> snakeRef tailChase ! i \<noteq> \<lparr>x = 6, y = 5\<rparr>"
    by (auto simp: tailChase_fields less_Suc_eq)
  have "sconst \<lparr>x = 0, y = 0\<rparr> !! 0 \<notin> set (\<lparr>x = 6, y = 5\<rparr> # snakeRef tailChase)"
    by (simp add: tailChase_fields)
  then have ex: "\<exists>n. sconst \<lparr>x = 0, y = 0\<rparr> !! n \<notin> set (\<lparr>x = 6, y = 5\<rparr> # snakeRef tailChase)"
    by (rule exI)
  have hyp: "(\<forall>i. i < length (snakeRef tailChase) - 1 \<longrightarrow> snakeRef tailChase ! i \<noteq> \<lparr>x = 6, y = 5\<rparr>) \<and>
        \<lparr>x = 6, y = 5\<rparr> = last (snakeRef tailChase) \<and> \<lparr>x = 6, y = 5\<rparr> = food tailChase \<and>
        (\<exists>n. sconst \<lparr>x = 0, y = 0\<rparr> !! n \<notin> set (\<lparr>x = 6, y = 5\<rparr> # snakeRef tailChase))"
    using nc l[symmetric] f[symmetric] ex by (intro conjI)
  have "\<exists>s' rnd'. moveSnake tailChase (sconst \<lparr>x = 0, y = 0\<rparr>) = Some (s', rnd') \<and>
                status s' = PLAYING \<and> snake s' = \<lparr>x = 6, y = 5\<rparr> # snakeRef tailChase"
    using moveSnake_self_collision_iff [OF tailChase_fields(1) tailChase_fields(2) nh b,
        of "sconst \<lparr>x = 0, y = 0\<rparr>", THEN conjunct2, THEN conjunct2] hyp
    by (rule mp)
  then show "\<exists>s' rnd'. moveSnake tailChase (sconst \<lparr>x = 0, y = 0\<rparr>) = Some (s', rnd') \<and>
       status s' = PLAYING \<and>
       snake s' = [\<lparr>x = 6, y = 5\<rparr>, \<lparr>x = 5, y = 5\<rparr>, \<lparr>x = 5, y = 6\<rparr>, \<lparr>x = 6, y = 6\<rparr>,
                   \<lparr>x = 6, y = 5\<rparr>]"
    unfolding tailChase_fields(2) .
qed

text \<open>
  Claim C1, as stated, fails where the grown snake fills the grid: in
  \<open>fullGrid\<close> the head is one cell from the food, the new head is inside the
  grid and on no segment, and the snake is a well-formed one; yet with draws that
  run through every cell of the grid again and again the tick does not return,
  because the sampling loop finds no free cell (\<open>fullGrid_blocks\<close>: so it is for
  all draws inside the grid).
\<close>

theorem moveSnake_growth_full_grid_counterexample:
  "status fullGrid = PLAYING \<and>
   contiguous (snakeRef fullGrid) \<and> distinct (snakeRef fullGrid) \<and>
   offsetHead (directionRef fullGrid) (hd (snakeRef fullGrid)) = food fullGrid \<and>
   \<not> wallCollision (food fullGrid) \<and>
   \<not> selfCollision (snakeRef fullGrid) (food fullGrid) \<and>
   validDraws (cycle allCells) \<and>
   moveSnake fullGrid (cycle allCells) = None"
proof (intro conjI)
  show "status fullGrid = PLAYING" by (rule fullGrid_fields)
  show "contiguous (snakeRef fullGrid)"
    unfolding fullGrid_fields by (rule fullSnake_contiguous)
  show "distinct (snakeRef fullGrid)"
    unfolding fullGrid_fields using fullSnake_distinct by simp
  show "offsetHead (directionRef fullGrid) (hd (snakeRef fullGrid)) = food fullGrid"
    using fullGrid_offset by (simp add: fullGrid_head)
  show "\<not> wallCollision (food fullGrid)" using fullGrid_no_wall unfolding fullGrid_offset .
  show "\<not> selfCollision (snakeRef fullGrid) (food fullGrid)"
    using fullGrid_no_self unfolding fullGrid_offset .
  show "validDraws (cycle allCells)" by (rule validDraws_allCells)
  show "moveSnake fullGrid (cycle allCells) = None"
    by (rule fullGrid_blocks[OF validDraws_allCells])
qed

text \<open>
  Claim C1, amended. In a \<open>PLAYING\<close> state whose new head is inside the grid, is
  the food cell and equals no segment other than the last one: if the random
  draws contain a cell that is not on the grown snake, the tick returns, and in
  the state it returns the snake is the new head followed by the whole old snake
  (length plus one), the score is the old score plus 10, the speed is
  \<open>max MIN_SPEED (speed - SPEED_DECREMENT)\<close>, and the food is on no segment of
  the grown snake; if every draw is on the grown snake, the tick does not return.
\<close>

theorem moveSnake_growth:
  assumes "status s = PLAYING"
    and "snakeRef s = currentHead # rest"
    and "newHead = offsetHead (directionRef s) currentHead"
    and "newHead = food s"
    and "0 \<le> x newHead \<and> x newHead < GRID_SIZE \<and> 0 \<le> y newHead \<and> y newHead < GRID_SIZE"
    and "\<forall>i. i < length (snakeRef s) - 1 \<longrightarrow> snakeRef s ! i \<noteq> newHead"
  shows "((\<exists>n. rnd !! n \<notin> set (newHead # snakeRef s))
          \<longrightarrow> (\<exists>s' rnd'. moveSnake s rnd = Some (s', rnd') \<and>
                 snake s' = newHead # snakeRef s \<and>
                 length (snake s') = length (snakeRef s) + 1 \<and>
                 score s' = score s + 10 \<and>
                 speed s' = max MIN_SPEED (speed s - SPEED_DECREMENT) \<and>
                 food s' \<notin> set (snake s') \<and>
                 status s' = PLAYING))
   \<and> ((\<forall>n. rnd !! n \<in> set (newHead # snakeRef s)) \<longrightarrow> moveSnake s rnd = None)"
proof -
  have w: "\<not> wallCollision (offsetHead (directionRef s) currentHead)"
    using assms(3,5) by (auto simp: wallCollision_def)
  have c: "\<not> selfCollision (snakeRef s) (offsetHead (directionRef s) currentHead)"
    unfolding selfCollision_nth using assms(3,6) by blast
  have f: "offsetHead (directionRef s) currentHead = food s"
    using assms(4) unfolding assms(3) .
  have 1: "(\<exists>n. rnd !! n \<notin> set (newHead # snakeRef s))
          \<longrightarrow> (\<exists>s' rnd'. moveSnake s rnd = Some (s', rnd') \<and>
                 snake s' = newHead # snakeRef s \<and>
                 length (snake s') = length (snakeRef s) + 1 \<and>
                 score s' = score s + 10 \<and>
                 speed s' = max MIN_SPEED (speed s - SPEED_DECREMENT) \<and>
                 food s' \<notin> set (snake s') \<and>
                 status s' = PLAYING)"
  proof
    assume "\<exists>n. rnd !! n \<notin> set (newHead # snakeRef s)"
    then obtain k where "rnd !! k \<notin> set (newHead # snakeRef s)" ..
    then have "rnd !! k \<notin> set (food s # snakeRef s)" unfolding assms(4) .
    from moveSnake_eat_returns[OF assms(1,2) w c f this] obtain p rnd' where
      m: "moveSnake s rnd =
            Some (s\<lparr>lastProcessedDirectionRef := directionRef s,
                    score := score s + 10,
                    speed := max MIN_SPEED (speed s - SPEED_DECREMENT),
                    food := p,
                    snake := food s # snakeRef s\<rparr>, rnd')"
      and p: "p \<notin> set (food s # snakeRef s)" by blast
    show "\<exists>s' rnd'. moveSnake s rnd = Some (s', rnd') \<and>
                 snake s' = newHead # snakeRef s \<and>
                 length (snake s') = length (snakeRef s) + 1 \<and>
                 score s' = score s + 10 \<and>
                 speed s' = max MIN_SPEED (speed s - SPEED_DECREMENT) \<and>
                 food s' \<notin> set (snake s') \<and>
                 status s' = PLAYING"
      unfolding m assms(4) using p assms(1) by simp
  qed
  have 2: "(\<forall>n. rnd !! n \<in> set (newHead # snakeRef s)) \<longrightarrow> moveSnake s rnd = None"
  proof
    assume a: "\<forall>n. rnd !! n \<in> set (newHead # snakeRef s)"
    have "\<forall>p \<in> sset rnd. onSnake (food s # snakeRef s) p"
    proof
      fix p assume "p \<in> sset rnd"
      then obtain n where "p = rnd !! n" by (auto simp: sset_range)
      with a have "p \<in> set (newHead # snakeRef s)" by simp
      then show "onSnake (food s # snakeRef s) p" unfolding onSnake_iff assms(4) .
    qed
    then have "getRandomPosition (food s # snakeRef s) rnd = None"
      by (rule getRandomPosition_blocked)
    with moveSnake_eat[OF assms(1,2) w c f, of rnd] show "moveSnake s rnd = None" by simp
  qed
  from 1 2 show ?thesis by (rule conjI)
qed

theorem moveSnake_growth_witness:
  "(\<lparr>x = 10, y = 9\<rparr> ## sconst \<lparr>x = 3, y = 4\<rparr>) !! 1 \<notin>
      set (\<lparr>x = 10, y = 9\<rparr> # snakeRef beforeFood) \<and>
   (\<exists>s' rnd'. moveSnake beforeFood (\<lparr>x = 10, y = 9\<rparr> ## sconst \<lparr>x = 3, y = 4\<rparr>) = Some (s', rnd') \<and>
       snake s' = [\<lparr>x = 10, y = 9\<rparr>, \<lparr>x = 10, y = 10\<rparr>, \<lparr>x = 10, y = 11\<rparr>, \<lparr>x = 10, y = 12\<rparr>] \<and>
       score s' = 10 \<and> speed s' = 148 \<and> food s' \<notin> set (snake s') \<and> status s' = PLAYING)"
proof (intro conjI)
  show fr: "(\<lparr>x = 10, y = 9\<rparr> ## sconst \<lparr>x = 3, y = 4\<rparr>) !! 1 \<notin>
      set (\<lparr>x = 10, y = 9\<rparr> # snakeRef beforeFood)"
    by (simp add: beforeFood_fields)
  have nh: "\<lparr>x = 10, y = 9\<rparr> = offsetHead (directionRef beforeFood) \<lparr>x = 10, y = 10\<rparr>"
    by (simp add: beforeFood_fields offsetHead_def)
  have fd: "\<lparr>x = 10, y = 9\<rparr> = food beforeFood"
    by (simp add: beforeFood_fields)
  have b: "0 \<le> x \<lparr>x = 10, y = 9\<rparr> \<and> x \<lparr>x = 10, y = 9\<rparr> < GRID_SIZE \<and>
           0 \<le> y \<lparr>x = 10, y = 9\<rparr> \<and> y \<lparr>x = 10, y = 9\<rparr> < GRID_SIZE"
    by (simp add: GRID_SIZE_def)
  have nc: "\<forall>i. i < length (snakeRef beforeFood) - 1 \<longrightarrow>
              snakeRef beforeFood ! i \<noteq> \<lparr>x = 10, y = 9\<rparr>"
    by (auto simp: beforeFood_fields less_Suc_eq)
  from fr have ex: "\<exists>n. (\<lparr>x = 10, y = 9\<rparr> ## sconst \<lparr>x = 3, y = 4\<rparr>) !! n \<notin>
      set (\<lparr>x = 10, y = 9\<rparr> # snakeRef beforeFood)" by (rule exI)
  have "\<exists>s' rnd'. moveSnake beforeFood (\<lparr>x = 10, y = 9\<rparr> ## sconst \<lparr>x = 3, y = 4\<rparr>) = Some (s', rnd') \<and>
                 snake s' = \<lparr>x = 10, y = 9\<rparr> # snakeRef beforeFood \<and>
                 length (snake s') = length (snakeRef beforeFood) + 1 \<and>
                 score s' = score beforeFood + 10 \<and>
                 speed s' = max MIN_SPEED (speed beforeFood - SPEED_DECREMENT) \<and>
                 food s' \<notin> set (snake s') \<and>
                 status s' = PLAYING"
    using moveSnake_growth [OF beforeFood_fields(1) beforeFood_fields(2) nh fd b nc,
        of "\<lparr>x = 10, y = 9\<rparr> ## sconst \<lparr>x = 3, y = 4\<rparr>", THEN conjunct1] ex
    by (rule mp)
  then show "\<exists>s' rnd'. moveSnake beforeFood (\<lparr>x = 10, y = 9\<rparr> ## sconst \<lparr>x = 3, y = 4\<rparr>) = Some (s', rnd') \<and>
       snake s' = [\<lparr>x = 10, y = 9\<rparr>, \<lparr>x = 10, y = 10\<rparr>, \<lparr>x = 10, y = 11\<rparr>, \<lparr>x = 10, y = 12\<rparr>] \<and>
       score s' = 10 \<and> speed s' = 148 \<and> food s' \<notin> set (snake s') \<and> status s' = PLAYING"
    by (auto simp: beforeFood_fields MIN_SPEED_def SPEED_DECREMENT_def)
qed

section \<open>Invariants of the reachable states\<close>

text \<open>
  Claim C7. In every reachable state (startup with any stored value and any
  draws, then any sequence of key presses, direction-pad presses, start clicks
  and ticks) every point of the snake satisfies \<open>0 \<le> x < GRID_SIZE\<close> and
  \<open>0 \<le> y < GRID_SIZE\<close>. The seed snake is inside the grid, and a tick whose new
  head is outside the grid ends in \<open>GAME_OVER\<close> with the snake as it was.
\<close>

theorem reachable_snake_in_bounds:
  assumes "reachable s"
  shows "(\<forall>p \<in> set (snake s).
           0 \<le> x p \<and> x p < GRID_SIZE \<and> 0 \<le> y p \<and> y p < GRID_SIZE)
   \<and> (\<forall>p \<in> set INITIAL_SNAKE.
           0 \<le> x p \<and> x p < GRID_SIZE \<and> 0 \<le> y p \<and> y p < GRID_SIZE)
   \<and> (\<forall>rnd s' rnd' currentHead rest.
         status s = PLAYING \<and> snake s = currentHead # rest \<and>
         wallCollision (offsetHead (direction s) currentHead) \<and>
         step Tick s rnd = Some (s', rnd')
         \<longrightarrow> status s' = GAME_OVER \<and> snake s' = snake s)"
proof -
  have 1: "\<forall>p \<in> set (snake s).
           0 \<le> x p \<and> x p < GRID_SIZE \<and> 0 \<le> y p \<and> y p < GRID_SIZE"
  proof
    fix p assume "p \<in> set (snake s)"
    with reachable_invariant[OF assms] have "\<not> wallCollision p" by blast
    then show "0 \<le> x p \<and> x p < GRID_SIZE \<and> 0 \<le> y p \<and> y p < GRID_SIZE"
      by (auto simp: wallCollision_def)
  qed
  have 2: "\<forall>p \<in> set INITIAL_SNAKE.
           0 \<le> x p \<and> x p < GRID_SIZE \<and> 0 \<le> y p \<and> y p < GRID_SIZE"
  proof
    fix p assume "p \<in> set INITIAL_SNAKE"
    with INITIAL_SNAKE_good(2) have "\<not> wallCollision p" by blast
    then show "0 \<le> x p \<and> x p < GRID_SIZE \<and> 0 \<le> y p \<and> y p < GRID_SIZE"
      by (auto simp: wallCollision_def)
  qed
  have 3: "\<forall>rnd s' rnd' currentHead rest.
         status s = PLAYING \<and> snake s = currentHead # rest \<and>
         wallCollision (offsetHead (direction s) currentHead) \<and>
         step Tick s rnd = Some (s', rnd')
         \<longrightarrow> status s' = GAME_OVER \<and> snake s' = snake s"
  proof (intro allI impI)
    fix rnd s' rnd' currentHead rest
    assume a: "status s = PLAYING \<and> snake s = currentHead # rest \<and>
         wallCollision (offsetHead (direction s) currentHead) \<and>
         step Tick s rnd = Some (s', rnd')"
    from reachable_committed[OF assms]
    have c: "snakeRef s = snake s" "directionRef s = direction s"
      by simp_all
    from a c have "moveSnake s rnd =
           Some (s\<lparr>lastProcessedDirectionRef := directionRef s, status := GAME_OVER\<rparr>, rnd)"
      by (intro moveSnake_wall[of s currentHead rest]) simp_all
    with a show "status s' = GAME_OVER \<and> snake s' = snake s"
      by (auto simp: step_def handle_def)
  qed
  from 1 2 3 show ?thesis by (intro conjI)
qed

theorem reachable_snake_in_bounds_witness:
  "reachable firstTick \<and>
   snake firstTick = [\<lparr>x = 10, y = 9\<rparr>, \<lparr>x = 10, y = 10\<rparr>, \<lparr>x = 10, y = 11\<rparr>] \<and>
   list_all (\<lambda>p. 0 \<le> x p \<and> x p < GRID_SIZE \<and> 0 \<le> y p \<and> y p < GRID_SIZE)
     (snake firstTick)"
  using reachable_snake_in_bounds [OF firstTick_reachable] firstTick_reachable
  by (simp add: firstTick_def list_all_iff)

text \<open>
  Claim C10. In every reachable state the snake has at least 3 segments. The seed
  has 3 segments and \<open>startGame\<close> installs the seed; an event either leaves the
  snake as it is, or starts a new game from the seed, or is a tick that keeps the
  length (the new snake without its head is the old snake without its last
  segment), or is a tick that adds one segment (the new snake without its head is
  the whole old snake).
\<close>

theorem reachable_snake_length:
  assumes "reachable s"
  shows "3 \<le> length (snake s)
   \<and> length INITIAL_SNAKE = 3
   \<and> (\<forall>s0 rnd s' rnd'. startGame s0 rnd = Some (s', rnd') \<longrightarrow> snake s' = INITIAL_SNAKE)
   \<and> (\<forall>e rnd s' rnd'. step e s rnd = Some (s', rnd') \<longrightarrow>
         snake s' = snake s \<or>
         snake s' = INITIAL_SNAKE \<and> startsGame e s \<or>
         e = Tick \<and> length (snake s') = length (snake s) \<and>
           butlast (snake s) = tl (snake s') \<or>
         e = Tick \<and> length (snake s') = length (snake s) + 1 \<and> snake s = tl (snake s'))"
proof (intro conjI allI impI)
  from reachable_invariant[OF assms] show l: "3 \<le> length (snake s)" by simp
  show "length INITIAL_SNAKE = 3" by (rule INITIAL_SNAKE_good)
  show "snake s' = INITIAL_SNAKE" if "startGame s0 rnd = Some (s', rnd')" for s0 rnd s' rnd'
    using that by (rule startGame_fields)
  fix e rnd s' rnd'
  assume "step e s rnd = Some (s', rnd')"
  then obtain s1 where h: "handle e s rnd = Some (s1, rnd')" and c: "s' = commit s1"
    by (rule step_handle)
  from reachable_committed[OF assms] have r: "snakeRef s = snake s" by simp
  from h show "snake s' = snake s \<or>
         snake s' = INITIAL_SNAKE \<and> startsGame e s \<or>
         e = Tick \<and> length (snake s') = length (snake s) \<and>
           butlast (snake s) = tl (snake s') \<or>
         e = Tick \<and> length (snake s') = length (snake s) + 1 \<and> snake s = tl (snake s')"
  proof (cases rule: handle_cases)
    case still
    with c show ?thesis by simp
  next
    case restart
    with c show ?thesis by simp
  next
    case emptied
    with r l show ?thesis by simp
  next
    case (plain currentHead rest)
    with c r have m: "snake s' = offsetHead (directionRef s) currentHead # butlast (snake s)"
      by simp
    then have "length (snake s') = length (snake s)" using l by simp
    moreover from m have "butlast (snake s) = tl (snake s')" by simp
    ultimately show ?thesis using plain(1) by blast
  next
    case (grow currentHead rest)
    with c r have m: "snake s' = offsetHead (directionRef s) currentHead # snake s"
      by simp
    then have "length (snake s') = length (snake s) + 1" by simp
    moreover from m have "snake s = tl (snake s')" by simp
    ultimately show ?thesis using grow(1) by blast
  qed
qed

theorem reachable_snake_length_witness:
  "reachable firstTick \<and> 3 \<le> length (snake firstTick) \<and> length (snake firstTick) = 3"
  using reachable_snake_length [OF firstTick_reachable] firstTick_reachable
  by (simp add: firstTick_def)

text \<open>
  Claim C6. The speed is \<open>INITIAL_SPEED\<close> after startup, after every
  \<open>startGame\<close>, and in every reachable \<open>IDLE\<close> state (from which the first
  direction key starts the game without \<open>startGame\<close>). In every reachable state it lies between \<open>MIN_SPEED\<close> and
  \<open>INITIAL_SPEED\<close>. An event that does not start a new game changes it only if
  it is a tick on which the snake grows, and then to
  \<open>max MIN_SPEED (speed - SPEED_DECREMENT)\<close>. Hence along every run of events
  within one game, from any reachable state, the speed does not increase and does
  not fall below \<open>MIN_SPEED\<close>.
\<close>

theorem speed_never_below_floor:
  assumes "reachable s"
  shows "(\<forall>stored rnd s0 rnd0. boot stored rnd = Some (s0, rnd0) \<longrightarrow> speed s0 = INITIAL_SPEED)
   \<and> (\<forall>s0 rnd s' rnd'. startGame s0 rnd = Some (s', rnd') \<longrightarrow> speed s' = INITIAL_SPEED)
   \<and> (status s = IDLE \<longrightarrow> speed s = INITIAL_SPEED)
   \<and> MIN_SPEED \<le> speed s \<and> speed s \<le> INITIAL_SPEED
   \<and> (\<forall>e rnd s' rnd'. step e s rnd = Some (s', rnd') \<and> \<not> startsGame e s \<longrightarrow>
         (if e = Tick \<and> length (snake s') = length (snake s) + 1
          then speed s' = max MIN_SPEED (speed s - SPEED_DECREMENT)
          else speed s' = speed s))
   \<and> (\<forall>es rnd s' rnd'. sameGame es s rnd \<and> play es s rnd = Some (s', rnd') \<longrightarrow>
         MIN_SPEED \<le> speed s' \<and> speed s' \<le> speed s)"
proof -
  have 1: "\<forall>stored rnd s0 rnd0. boot stored rnd = Some (s0, rnd0) \<longrightarrow> speed s0 = INITIAL_SPEED"
    using boot_speed by blast
  have 2: "\<forall>s0 rnd s' rnd'. startGame s0 rnd = Some (s', rnd') \<longrightarrow> speed s' = INITIAL_SPEED"
    using startGame_fields(2) by blast
  have idle: "status s = IDLE \<longrightarrow> speed s = INITIAL_SPEED"
    using reachable_idle_speed[OF assms] by blast
  from reachable_invariant[OF assms]
  have lo: "MIN_SPEED \<le> speed s" and hi: "speed s \<le> INITIAL_SPEED" by simp_all
  have 4: "\<forall>e rnd s' rnd'. step e s rnd = Some (s', rnd') \<and> \<not> startsGame e s \<longrightarrow>
         (if e = Tick \<and> length (snake s') = length (snake s) + 1
          then speed s' = max MIN_SPEED (speed s - SPEED_DECREMENT)
          else speed s' = speed s)"
    using step_speed[OF assms] by blast
  have 5: "\<forall>es rnd s' rnd'. sameGame es s rnd \<and> play es s rnd = Some (s', rnd') \<longrightarrow>
         MIN_SPEED \<le> speed s' \<and> speed s' \<le> speed s"
  proof (intro allI impI)
    fix es rnd s' rnd'
    assume a: "sameGame es s rnd \<and> play es s rnd = Some (s', rnd')"
    then have p: "reachable s' \<and> speed s' \<le> speed s"
      using play_speed[OF assms, of es rnd s' rnd'] by blast
    with reachable_invariant[of s'] show "MIN_SPEED \<le> speed s' \<and> speed s' \<le> speed s"
      by simp
  qed
  from 1 2 idle lo hi 4 5 show ?thesis by (intro conjI)
qed

theorem speed_never_below_floor_witness:
  "reachable foodAhead \<and>
   sameGame [KeyDown ''ArrowUp'' ''ArrowUp'', Tick] foodAhead (sconst \<lparr>x = 3, y = 4\<rparr>) \<and>
   play [KeyDown ''ArrowUp'' ''ArrowUp'', Tick] foodAhead (sconst \<lparr>x = 3, y = 4\<rparr>) =
     Some (firstMeal, sconst \<lparr>x = 3, y = 4\<rparr>) \<and>
   speed foodAhead = 150 \<and> speed firstMeal = 148 \<and>
   MIN_SPEED \<le> speed firstMeal \<and> speed firstMeal \<le> speed foodAhead"
proof -
  have "sameGame [KeyDown ''ArrowUp'' ''ArrowUp'', Tick] foodAhead (sconst \<lparr>x = 3, y = 4\<rparr>) \<and>
        play [KeyDown ''ArrowUp'' ''ArrowUp'', Tick] foodAhead (sconst \<lparr>x = 3, y = 4\<rparr>) =
          Some (firstMeal, sconst \<lparr>x = 3, y = 4\<rparr>)
        \<longrightarrow> MIN_SPEED \<le> speed firstMeal \<and> speed firstMeal \<le> speed foodAhead"
    using speed_never_below_floor [OF foodAhead_reachable] by blast
  with foodAhead_sameGame foodAhead_play foodAhead_reachable show ?thesis
    by (simp add: foodAhead_def firstMeal_def initialApp_def INITIAL_SPEED_def)
qed

section \<open>Loading the high score\<close>

text \<open>
  Claim C8 says that a stored value that is absent or does not parse as an
  integer gives the high score 0. The code does so for an absent and for an empty
  value only: the guard \<open>if (stored)\<close> lets every other string through to
  \<open>parseInt\<close>, and for the stored value \<open>abc\<close> the high score after startup is
  \<open>NaN\<close>. It then stays \<open>NaN\<close>, since \<open>score > highScore\<close> is false for
  \<open>NaN\<close>: here with a score of 10.
\<close>

theorem boot_malformed_high_score:
  "boot (Some ''abc'') (sconst \<lparr>x = 3, y = 4\<rparr>) =
     Some (initialApp\<lparr>highScore := NaN, food := \<lparr>x = 3, y = 4\<rparr>\<rparr>, sconst \<lparr>x = 3, y = 4\<rparr>)
   \<and> boot None (sconst \<lparr>x = 3, y = 4\<rparr>) =
     Some (initialApp\<lparr>highScore := Num 0, food := \<lparr>x = 3, y = 4\<rparr>\<rparr>, sconst \<lparr>x = 3, y = 4\<rparr>)
   \<and> boot (Some '''') (sconst \<lparr>x = 3, y = 4\<rparr>) =
     Some (initialApp\<lparr>highScore := Num 0, food := \<lparr>x = 3, y = 4\<rparr>\<rparr>, sconst \<lparr>x = 3, y = 4\<rparr>)
   \<and> highScore (commit (initialApp\<lparr>highScore := NaN, score := 10\<rparr>)) = NaN"
  by (simp add: boot_def mount_def getRandomPosition_seed_34 commit_def Let_def initialApp_def
      parseInt10_abc)

end
